theory Spec2Isabelle
  imports Main "HOL-Library.Sublist"
begin

text \<open>
  The parser of agent specs (\<^verbatim>\<open>packages/core/src/parse.ts\<close>) and its schema
  (\<^verbatim>\<open>schema.ts\<close>): \<^verbatim>\<open>parseAgentSpec\<close> reads a YAML document, validates it against
  \<^verbatim>\<open>agentSpecSchema\<close> and returns the agent spec or raises a \<^verbatim>\<open>SpecParseError\<close> that
  lists the issues found.
\<close>

section \<open>JavaScript values as the YAML parser yields them\<close>

text \<open>
  \<^verbatim>\<open>parseYaml\<close> returns \<^verbatim>\<open>unknown\<close>: null, a boolean, a number, a string,
  an array (YAML sequence) or a plain object (YAML mapping, keys in document order).
  \<^verbatim>\<open>JUndefined\<close> is the value of a property that is absent.  The program reads
  two things only from a number, its type tag and its text \<^verbatim>\<open>String(n)\<close>, so a number
  is carried as that text (\<^verbatim>\<open>NaN\<close> for not-a-number).
\<close>

datatype jsval =
    JUndefined
  | JNull
  | JBool bool
  | JNum string
  | JStr string
  | JArr "jsval list"
  | JObj "(string \<times> jsval) list"

text \<open>Property read \<^verbatim>\<open>data[key]\<close> on a parsed value; an absent key reads as undefined.\<close>

fun get_prop :: "jsval \<Rightarrow> string \<Rightarrow> jsval" where
  "get_prop (JObj kvs) k = (case map_of kvs k of None \<Rightarrow> JUndefined | Some v \<Rightarrow> v)"
| "get_prop _ k = JUndefined"

text \<open>The \<^verbatim>\<open>typeof\<close> operator.\<close>

fun typeof :: "jsval \<Rightarrow> string" where
  "typeof JUndefined = ''undefined''"
| "typeof JNull = ''object''"
| "typeof (JBool _) = ''boolean''"
| "typeof (JNum _) = ''number''"
| "typeof (JStr _) = ''string''"
| "typeof (JArr _) = ''object''"
| "typeof (JObj _) = ''object''"

text \<open>\<^verbatim>\<open>Array.prototype.join\<close> on strings.\<close>

fun join :: "string \<Rightarrow> string list \<Rightarrow> string" where
  "join sep [] = []"
| "join sep [x] = x"
| "join sep (x # y # ys) = x @ sep @ join sep (y # ys)"

text \<open>
  Conversion to text, as a template literal performs it on an interpolated value.  An array is the
  comma-joined text of its elements, with null and undefined elements empty.  A plain
  object is \<^verbatim>\<open>[object Object]\<close> through the inherited \<^verbatim>\<open>toString\<close>; a mapping
  with a key \<^verbatim>\<open>toString\<close> of its own shadows that method by a value that cannot be
  called, and the conversion raises a TypeError: the result \<^verbatim>\<open>None\<close>.
\<close>

fun sequence_opt :: "'a option list \<Rightarrow> 'a list option" where
  "sequence_opt [] = Some []"
| "sequence_opt (None # _) = None"
| "sequence_opt (Some x # xs) = (case sequence_opt xs of None \<Rightarrow> None | Some ys \<Rightarrow> Some (x # ys))"

fun js_to_string :: "jsval \<Rightarrow> string option" where
  "js_to_string JUndefined = Some ''undefined''"
| "js_to_string JNull = Some ''null''"
| "js_to_string (JBool b) = Some (if b then ''true'' else ''false'')"
| "js_to_string (JNum s) = Some s"
| "js_to_string (JStr s) = Some s"
| "js_to_string (JArr xs) =
     map_option (join '','')
       (sequence_opt (map (\<lambda>x. if x = JNull \<or> x = JUndefined then Some [] else js_to_string x) xs))"
| "js_to_string (JObj kvs) =
     (if ''toString'' \<in> fst ` set kvs then None else Some ''[object Object]'')"

text \<open>Decimal text of an array index, as \<^verbatim>\<open>path.join(".")\<close> renders it.\<close>

fun show_nat :: "nat \<Rightarrow> string" where
  "show_nat n =
     (if n < 10 then [char_of (48 + n)]
      else show_nat (n div 10) @ [char_of (48 + n mod 10)])"

declare show_nat.simps [simp del]

section \<open>Regular expressions\<close>

text \<open>
  The fragment of JavaScript regular expressions the schema uses: character classes
  given by ranges of code units, sequence, alternative and star.  A pattern written
  between \<^verbatim>\<open>^\<close> and \<^verbatim>\<open>$\<close> (no flags) matches the whole string or nothing, so
  \<^verbatim>\<open>regex.test\<close> is whole-string matching, by derivatives.
\<close>

datatype regex =
    Never
  | Empty
  | Class "(char \<times> char) list"
  | Seq regex regex
  | Alt regex regex
  | Star regex

definition in_class :: "(char \<times> char) list \<Rightarrow> char \<Rightarrow> bool" where
  "in_class rs c =
     list_ex (\<lambda>(lo, hi). (of_char lo :: nat) \<le> of_char c \<and> (of_char c :: nat) \<le> of_char hi) rs"

fun nullable :: "regex \<Rightarrow> bool" where
  "nullable Never = False"
| "nullable Empty = True"
| "nullable (Class _) = False"
| "nullable (Seq r s) = (nullable r \<and> nullable s)"
| "nullable (Alt r s) = (nullable r \<or> nullable s)"
| "nullable (Star _) = True"

fun deriv :: "char \<Rightarrow> regex \<Rightarrow> regex" where
  "deriv c Never = Never"
| "deriv c Empty = Never"
| "deriv c (Class rs) = (if in_class rs c then Empty else Never)"
| "deriv c (Seq r s) =
     (if nullable r then Alt (Seq (deriv c r) s) (deriv c s) else Seq (deriv c r) s)"
| "deriv c (Alt r s) = Alt (deriv c r) (deriv c s)"
| "deriv c (Star r) = Seq (deriv c r) (Star r)"

fun regex_test :: "regex \<Rightarrow> string \<Rightarrow> bool" where
  "regex_test r [] = nullable r"
| "regex_test r (c # cs) = regex_test (deriv c r) cs"

section \<open>Errors\<close>

text \<open>
  \<^verbatim>\<open>class SpecParseError extends Error\<close>: the constructor builds the message from
  the issues.  What a call can raise: a \<^verbatim>\<open>SpecParseError\<close>, the TypeError of a failed
  conversion to text, or the library's plain \<^verbatim>\<open>Error\<close>.
\<close>

record SpecParseError_class =
  error_name :: string
  error_message :: string
  issues :: "string list"

definition SpecParseError :: "string list \<Rightarrow> SpecParseError_class" where
  "SpecParseError issue_texts =
     \<lparr>error_name = ''SpecParseError'',
      error_message =
        ''Invalid agent spec:'' @ [CHR 0x0A] @ join [CHR 0x0A] (map (\<lambda>i. ''  - '' @ i) issue_texts),
      issues = issue_texts\<rparr>"

datatype thrown =
    Thrown_SpecParseError SpecParseError_class
  | Thrown_TypeError
  | Thrown_Error string

datatype 'a outcome = Returns 'a | Throws thrown

section \<open>The validation library\<close>

text \<open>
  The schema is built from the combinators of the validation library (zod, version 3).
  Each combinator is modelled by its synchronous \<^verbatim>\<open>_parse\<close>: it takes the path of
  the value and the value, and gives the issues it adds to the context, in order,
  together with its return: \<^verbatim>\<open>{status: "valid", value}\<close>, \<^verbatim>\<open>{status: "dirty", value}\<close>
  or \<^verbatim>\<open>INVALID\<close> (status aborted).
\<close>

datatype path_elem = Key string | Index nat

record zod_issue =
  path :: "path_elem list"
  message :: string

datatype 'a parse_return = OK 'a | DIRTY 'a | INVALID

type_synonym 'a parsed = "zod_issue list \<times> 'a parse_return"

type_synonym 'a parser = "path_elem list \<Rightarrow> jsval \<Rightarrow> 'a parsed"

text \<open>\<^verbatim>\<open>getParsedType\<close>: the library's own type tag of a value.\<close>

fun getParsedType :: "jsval \<Rightarrow> string" where
  "getParsedType JUndefined = ''undefined''"
| "getParsedType JNull = ''null''"
| "getParsedType (JBool _) = ''boolean''"
| "getParsedType (JNum s) = (if s = ''NaN'' then ''nan'' else ''number'')"
| "getParsedType (JStr _) = ''string''"
| "getParsedType (JArr _) = ''array''"
| "getParsedType (JObj _) = ''object''"

text \<open>The default error map, for the issue codes the schema can raise.\<close>

definition invalid_type_message :: "string \<Rightarrow> string \<Rightarrow> string" where
  "invalid_type_message expected received =
     (if received = ''undefined'' then ''Required''
      else ''Expected '' @ expected @ '', received '' @ received)"

definition joinValues :: "string list \<Rightarrow> string" where
  "joinValues vs = join '' | '' (map (\<lambda>v. [CHR 0x27] @ v @ [CHR 0x27]) vs)"

definition invalid_enum_value_message :: "string list \<Rightarrow> string \<Rightarrow> string" where
  "invalid_enum_value_message options received =
     ''Invalid enum value. Expected '' @ joinValues options @ '', received ''
       @ [CHR 0x27] @ received @ [CHR 0x27]"

definition too_small_string_message :: "nat \<Rightarrow> string" where
  "too_small_string_message minimum =
     ''String must contain at least '' @ show_nat minimum @ '' character(s)''"

definition invalid_union_message :: string where
  "invalid_union_message = ''Invalid input''"

definition invalid_string_regex_message :: string where
  "invalid_string_regex_message = ''Invalid''"

text \<open>
  \<^verbatim>\<open>z.string()\<close> with its checks.  A value that is not a string aborts with one
  issue; on a string every check runs, each failure adds its issue (the check's own
  message when it has one) and makes the status dirty.
\<close>

datatype string_check = Min nat "string option" | Regex regex "string option"

fun check_ok :: "string_check \<Rightarrow> string \<Rightarrow> bool" where
  "check_ok (Min n _) s = (\<not> length s < n)"
| "check_ok (Regex r _) s = regex_test r s"

fun check_message :: "string_check \<Rightarrow> string" where
  "check_message (Min n m) = (case m of Some t \<Rightarrow> t | None \<Rightarrow> too_small_string_message n)"
| "check_message (Regex r m) = (case m of Some t \<Rightarrow> t | None \<Rightarrow> invalid_string_regex_message)"

definition ZodString :: "string_check list \<Rightarrow> string parser" where
  "ZodString checks p data =
     (case data of
        JStr s \<Rightarrow>
          (let failed = filter (\<lambda>c. \<not> check_ok c s) checks
           in (map (\<lambda>c. \<lparr>path = p, message = check_message c\<rparr>) failed,
               if failed = [] then OK s else DIRTY s))
      | _ \<Rightarrow>
          ([\<lparr>path = p, message = invalid_type_message ''string'' (getParsedType data)\<rparr>],
           INVALID))"

text \<open>\<^verbatim>\<open>z.enum(values)\<close> with the default error map.\<close>

definition ZodEnum :: "string list \<Rightarrow> string parser" where
  "ZodEnum values p data =
     (case data of
        JStr s \<Rightarrow>
          (if s \<in> set values then ([], OK s)
           else ([\<lparr>path = p, message = invalid_enum_value_message values s\<rparr>], INVALID))
      | _ \<Rightarrow>
          ([\<lparr>path = p,
             message = invalid_type_message (joinValues values) (getParsedType data)\<rparr>],
           INVALID))"

text \<open>
  \<^verbatim>\<open>z.enum(values, {errorMap})\<close>: the schema's error map writes the message of every
  issue the enum raises, from the value being parsed.  The map may raise, and then so
  does the parse.
\<close>

definition ZodEnum_errorMap ::
  "string list \<Rightarrow> (jsval \<Rightarrow> string outcome) \<Rightarrow> path_elem list \<Rightarrow> jsval \<Rightarrow> string parsed outcome"
where
  "ZodEnum_errorMap values errorMap p data =
     (let issue = (case errorMap data of
                     Throws e \<Rightarrow> Throws e
                   | Returns m \<Rightarrow> Returns ([\<lparr>path = p, message = m\<rparr>], INVALID))
      in case data of
           JStr s \<Rightarrow> (if s \<in> set values then Returns ([], OK s) else issue)
         | _ \<Rightarrow> issue)"

text \<open>
  \<^verbatim>\<open>z.array(element)\<close>: a value that is not an array aborts with one issue; otherwise
  every element is parsed at its index, and \<^verbatim>\<open>mergeArray\<close> aborts if an element
  aborted and is dirty if one is dirty.
\<close>

fun mergeArray :: "'a parse_return list \<Rightarrow> 'a list parse_return" where
  "mergeArray [] = OK []"
| "mergeArray (INVALID # rs) = INVALID"
| "mergeArray (OK v # rs) =
     (case mergeArray rs of OK vs \<Rightarrow> OK (v # vs) | DIRTY vs \<Rightarrow> DIRTY (v # vs) | INVALID \<Rightarrow> INVALID)"
| "mergeArray (DIRTY v # rs) =
     (case mergeArray rs of OK vs \<Rightarrow> DIRTY (v # vs) | DIRTY vs \<Rightarrow> DIRTY (v # vs) | INVALID \<Rightarrow> INVALID)"

definition parse_items :: "'a parser \<Rightarrow> path_elem list \<Rightarrow> jsval list \<Rightarrow> 'a parsed list" where
  "parse_items element p items =
     map (\<lambda>(i, item). element (p @ [Index i]) item) (enumerate 0 items)"

definition ZodArray :: "'a parser \<Rightarrow> 'a list parser" where
  "ZodArray element p data =
     (case data of
        JArr items \<Rightarrow>
          (let results = parse_items element p items
           in (concat (map fst results), mergeArray (map snd results)))
      | _ \<Rightarrow>
          ([\<lparr>path = p, message = invalid_type_message ''array'' (getParsedType data)\<rparr>],
           INVALID))"

text \<open>\<^verbatim>\<open>schema.optional()\<close>: undefined is accepted as it is.\<close>

fun map_return :: "('a \<Rightarrow> 'b) \<Rightarrow> 'a parse_return \<Rightarrow> 'b parse_return" where
  "map_return f (OK v) = OK (f v)"
| "map_return f (DIRTY v) = DIRTY (f v)"
| "map_return f INVALID = INVALID"

definition ZodOptional :: "'a parser \<Rightarrow> 'a option parser" where
  "ZodOptional inner p data =
     (if getParsedType data = ''undefined'' then ([], OK None)
      else (let (found, r) = inner p data in (found, map_return Some r)))"

text \<open>
  \<^verbatim>\<open>z.union(options)\<close>: every option parses the value in a context of its own.  The
  first valid result is returned; failing that, the first dirty result with its issues;
  failing that, the single issue \<^verbatim>\<open>invalid_union\<close> (the options' issues are kept
  inside it, out of the issue list).
\<close>

fun is_valid :: "'a parse_return \<Rightarrow> bool" where
  "is_valid (OK _) = True"
| "is_valid _ = False"

fun is_dirty :: "'a parse_return \<Rightarrow> bool" where
  "is_dirty (DIRTY _) = True"
| "is_dirty _ = False"

definition ZodUnion :: "'a parser list \<Rightarrow> 'a parser" where
  "ZodUnion options p data =
     (let results = map (\<lambda>option. option p data) options
      in case find (\<lambda>r. is_valid (snd r)) results of
           Some r \<Rightarrow> ([], snd r)
         | None \<Rightarrow>
             (case find (\<lambda>r. is_dirty (snd r)) results of
                Some d \<Rightarrow> d
              | None \<Rightarrow> ([\<lparr>path = p, message = invalid_union_message\<rparr>], INVALID)))"

text \<open>
  \<^verbatim>\<open>z.object(shape)\<close>, in its default mode (unknown keys are stripped).  A value that
  is not a plain object aborts with one issue.  Otherwise every key of the shape is
  parsed, in the shape's order, from the property of that name, and
  \<^verbatim>\<open>mergeObjectSync\<close> builds the result from the shape's keys alone: aborted if a
  property aborted, dirty if one is dirty.  \<^verbatim>\<open>merge_field\<close> adds one property to a
  partly built object.
\<close>

fun merge_field :: "('a \<Rightarrow> 'b) parse_return \<Rightarrow> 'a parse_return \<Rightarrow> 'b parse_return" where
  "merge_field INVALID _ = INVALID"
| "merge_field _ INVALID = INVALID"
| "merge_field (OK f) (OK v) = OK (f v)"
| "merge_field (OK f) (DIRTY v) = DIRTY (f v)"
| "merge_field (DIRTY f) (OK v) = DIRTY (f v)"
| "merge_field (DIRTY f) (DIRTY v) = DIRTY (f v)"

definition not_an_object :: "path_elem list \<Rightarrow> jsval \<Rightarrow> 'a parsed" where
  "not_an_object p data =
     ([\<lparr>path = p, message = invalid_type_message ''object'' (getParsedType data)\<rparr>], INVALID)"

text \<open>
  \<^verbatim>\<open>schema.safeParse(data)\<close>: the parse at the empty path; success only on status
  valid, and otherwise the issues collected (the library raises if there are none).
\<close>

datatype 'a SafeParseReturn = Success 'a | Failure "zod_issue list"

definition safeParse ::
  "(path_elem list \<Rightarrow> jsval \<Rightarrow> 'a parsed outcome) \<Rightarrow> jsval \<Rightarrow> 'a SafeParseReturn outcome"
where
  "safeParse schema data =
     (case schema [] data of
        Throws e \<Rightarrow> Throws e
      | Returns (found, r) \<Rightarrow>
          (case r of
             OK v \<Rightarrow> Returns (Success v)
           | _ \<Rightarrow>
               (if found = [] then Throws (Thrown_Error ''Validation failed but no issues detected.'')
                else Returns (Failure found))))"

section \<open>The schema\<close>

definition SUPPORTED_MODELS :: "string list" where
  "SUPPORTED_MODELS = [''gemini-2.5-flash'', ''gemini-2.5-pro'', ''gemini-3-flash-preview'']"

datatype ToolEntry = McpTool string string | LocalTool string string

record AclEntry =
  principal :: string
  role :: string

record AgentSpec =
  name :: string
  model :: string
  description :: string
  tools :: "ToolEntry list option"
  skills :: "string list option"
  acl :: "AclEntry list option"

definition mcpToolSchema :: "ToolEntry parser" where
  "mcpToolSchema p data =
     (if getParsedType data \<noteq> ''object'' then not_an_object p data
      else
        (let (i1, server) = ZodString [Min 1 None] (p @ [Key ''server'']) (get_prop data ''server'');
             (i2, access) = ZodEnum [''read'', ''write''] (p @ [Key ''access'']) (get_prop data ''access'')
         in (i1 @ i2, merge_field (merge_field (OK McpTool) server) access)))"

definition localToolSchema :: "ToolEntry parser" where
  "localToolSchema p data =
     (if getParsedType data \<noteq> ''object'' then not_an_object p data
      else
        (let (i1, name) = ZodString [Min 1 None] (p @ [Key ''name'']) (get_prop data ''name'');
             (i2, access) = ZodEnum [''read'', ''write''] (p @ [Key ''access'']) (get_prop data ''access'')
         in (i1 @ i2, merge_field (merge_field (OK LocalTool) name) access)))"

definition toolSchema :: "ToolEntry parser" where
  "toolSchema = ZodUnion [mcpToolSchema, localToolSchema]"

definition aclEntrySchema :: "AclEntry parser" where
  "aclEntrySchema p data =
     (if getParsedType data \<noteq> ''object'' then not_an_object p data
      else
        (let (i1, principal) =
               ZodString [Min 1 None] (p @ [Key ''principal'']) (get_prop data ''principal'');
             (i2, role) = ZodEnum [''execute'', ''read''] (p @ [Key ''role'']) (get_prop data ''role'')
         in (i1 @ i2,
             merge_field (merge_field (OK (\<lambda>pr ro. \<lparr>principal = pr, role = ro\<rparr>)) principal) role)))"

text \<open>
  The fields of \<^verbatim>\<open>agentSpecSchema\<close>, each under the name of its key, and then the
  object schema itself.  The pattern of \<^verbatim>\<open>name\<close> is \<^verbatim>\<open>/^[a-z0-9][a-z0-9-]*$/\<close>.
\<close>

definition name_regex :: regex where
  "name_regex =
     Seq (Class [(CHR ''a'', CHR ''z''), (CHR ''0'', CHR ''9'')])
         (Star (Class [(CHR ''a'', CHR ''z''), (CHR ''0'', CHR ''9''), (CHR ''-'', CHR ''-'')]))"

definition nameSchema :: "string parser" where
  "nameSchema =
     ZodString
       [Min 1 (Some ''Agent name is required''),
        Regex name_regex
          (Some ''Agent name must be lowercase alphanumeric with hyphens, starting with a letter or digit'')]"

text \<open>
  The error map of the \<^verbatim>\<open>model\<close> field:
  \<^verbatim>\<open>Unknown model "${ctx.data}". Supported: ${SUPPORTED_MODELS.join(", ")}\<close>.
\<close>

definition model_errorMap :: "jsval \<Rightarrow> string outcome" where
  "model_errorMap data =
     (case js_to_string data of
        None \<Rightarrow> Throws Thrown_TypeError
      | Some text \<Rightarrow>
          Returns (''Unknown model '' @ [CHR 0x22] @ text @ [CHR 0x22] @ ''. Supported: ''
                     @ join '', '' SUPPORTED_MODELS))"

definition modelSchema :: "path_elem list \<Rightarrow> jsval \<Rightarrow> string parsed outcome" where
  "modelSchema = ZodEnum_errorMap SUPPORTED_MODELS model_errorMap"

definition descriptionSchema :: "string parser" where
  "descriptionSchema = ZodString [Min 1 (Some ''Agent description is required'')]"

definition toolsSchema :: "ToolEntry list option parser" where
  "toolsSchema = ZodOptional (ZodArray toolSchema)"

definition skillsSchema :: "string list option parser" where
  "skillsSchema = ZodOptional (ZodArray (ZodString [Min 1 None]))"

definition aclSchema :: "AclEntry list option parser" where
  "aclSchema = ZodOptional (ZodArray aclEntrySchema)"

definition make_AgentSpec ::
  "string \<Rightarrow> string \<Rightarrow> string \<Rightarrow> ToolEntry list option \<Rightarrow> string list option
     \<Rightarrow> AclEntry list option \<Rightarrow> AgentSpec"
where
  "make_AgentSpec n m d t s a =
     \<lparr>name = n, model = m, description = d, tools = t, skills = s, acl = a\<rparr>"

definition agentSpecSchema :: "path_elem list \<Rightarrow> jsval \<Rightarrow> AgentSpec parsed outcome" where
  "agentSpecSchema p data =
     (if getParsedType data \<noteq> ''object'' then Returns (not_an_object p data)
      else
        (let (i1, r1) = nameSchema (p @ [Key ''name'']) (get_prop data ''name'')
         in case modelSchema (p @ [Key ''model'']) (get_prop data ''model'') of
              Throws e \<Rightarrow> Throws e
            | Returns (i2, r2) \<Rightarrow>
                (let (i3, r3) = descriptionSchema (p @ [Key ''description'']) (get_prop data ''description'');
                     (i4, r4) = toolsSchema (p @ [Key ''tools'']) (get_prop data ''tools'');
                     (i5, r5) = skillsSchema (p @ [Key ''skills'']) (get_prop data ''skills'');
                     (i6, r6) = aclSchema (p @ [Key ''acl'']) (get_prop data ''acl'')
                 in Returns
                      (i1 @ i2 @ i3 @ i4 @ i5 @ i6,
                       merge_field (merge_field (merge_field (merge_field (merge_field
                         (merge_field (OK make_AgentSpec) r1) r2) r3) r4) r5) r6))))"

section \<open>Parsing an agent spec\<close>

fun path_elem_text :: "path_elem \<Rightarrow> string" where
  "path_elem_text (Key k) = k"
| "path_elem_text (Index i) = show_nat i"

definition formatZodIssue :: "zod_issue \<Rightarrow> string" where
  "formatZodIssue issue =
     (let path_text = (if length (path issue) > 0 then join ''.'' (map path_elem_text (path issue))
                       else ''(root)'')
      in path_text @ '': '' @ message issue)"

definition formatZodIssues :: "zod_issue list \<Rightarrow> string list" where
  "formatZodIssues error_issues = map formatZodIssue error_issues"

text \<open>
  \<^verbatim>\<open>parseAgentSpec(yamlContent)\<close>.  The YAML parser is the function \<^verbatim>\<open>parseYaml\<close>:
  it returns the parsed value (\<^verbatim>\<open>Inr\<close>) or raises, and \<^verbatim>\<open>Inl\<close> carries the text
  \<^verbatim>\<open>err instanceof Error ? err.message : String(err)\<close> of what it raised.
\<close>

definition parseAgentSpec :: "(string \<Rightarrow> string + jsval) \<Rightarrow> string \<Rightarrow> AgentSpec outcome" where
  "parseAgentSpec parseYaml yamlContent =
     (case parseYaml yamlContent of
        Inl err_message \<Rightarrow>
          Throws (Thrown_SpecParseError (SpecParseError [''YAML syntax error: '' @ err_message]))
      | Inr raw \<Rightarrow>
          (if raw = JNull \<or> raw = JUndefined \<or> typeof raw \<noteq> ''object''
           then Throws (Thrown_SpecParseError
                  (SpecParseError [''Expected a YAML mapping, got a scalar or empty document'']))
           else
             (case safeParse agentSpecSchema raw of
                Throws e \<Rightarrow> Throws e
              | Returns (Failure error_issues) \<Rightarrow>
                  Throws (Thrown_SpecParseError (SpecParseError (formatZodIssues error_issues)))
              | Returns (Success data) \<Rightarrow> Returns data)))"

section \<open>Notions used in the proofs\<close>

text \<open>
  A parser is sound when it reports no issue exactly on a valid return: the library
  relies on this when \<^verbatim>\<open>safeParse\<close> turns every return that is not valid into an
  error carrying the issues.
\<close>

definition sound :: "'a parser \<Rightarrow> bool" where
  "sound P \<longleftrightarrow> (\<forall>p d. (fst (P p d) = []) = is_valid (snd (P p d)))"

text \<open>
  The character classes in the words of the specification (lowercase letters, digits),
  to which the pattern of the \<^verbatim>\<open>name\<close> field is compared.
\<close>

definition lowercase_letter :: "char \<Rightarrow> bool" where
  "lowercase_letter c \<longleftrightarrow> c \<in> set ''abcdefghijklmnopqrstuvwxyz''"

definition digit :: "char \<Rightarrow> bool" where
  "digit c \<longleftrightarrow> c \<in> set ''0123456789''"

text \<open>A regular expression that no string matches, recognised by its shape.\<close>

fun dead :: "regex \<Rightarrow> bool" where
  "dead Never = True"
| "dead (Seq r s) = dead r"
| "dead (Alt r s) = (dead r \<and> dead s)"
| "dead _ = False"

text \<open>
  The documents the schema accepts, described directly, and the value each gives.
  \<^verbatim>\<open>tool_form\<close> relates an entry of \<^verbatim>\<open>tools\<close> to the tool entry returned for it,
  \<^verbatim>\<open>acl_form\<close> an entry of \<^verbatim>\<open>acl\<close> and \<^verbatim>\<open>skill_form\<close> an entry of \<^verbatim>\<open>skills\<close>;
  \<^verbatim>\<open>optional_list\<close> lifts them to an optional list, and \<^verbatim>\<open>spec_of\<close> relates a
  document to the agent spec returned for it.  The facts below prove that these
  describe the schema.
\<close>

fun nonempty_string :: "jsval \<Rightarrow> bool" where
  "nonempty_string (JStr s) = (s \<noteq> [])"
| "nonempty_string _ = False"

fun tool_form :: "jsval \<Rightarrow> ToolEntry \<Rightarrow> bool" where
  "tool_form e (McpTool s a) =
     (get_prop e ''server'' = JStr s \<and> s \<noteq> [] \<and> get_prop e ''access'' = JStr a
      \<and> a \<in> set [''read'', ''write''])"
| "tool_form e (LocalTool n a) =
     (get_prop e ''name'' = JStr n \<and> n \<noteq> [] \<and> get_prop e ''access'' = JStr a
      \<and> a \<in> set [''read'', ''write''] \<and> \<not> nonempty_string (get_prop e ''server''))"

fun acl_form :: "jsval \<Rightarrow> AclEntry \<Rightarrow> bool" where
  "acl_form e a =
     (get_prop e ''principal'' = JStr (principal a) \<and> principal a \<noteq> []
      \<and> get_prop e ''role'' = JStr (role a) \<and> role a \<in> set [''execute'', ''read''])"

fun skill_form :: "jsval \<Rightarrow> string \<Rightarrow> bool" where
  "skill_form e s = (e = JStr s \<and> s \<noteq> [])"

fun optional_list :: "(jsval \<Rightarrow> 'a \<Rightarrow> bool) \<Rightarrow> jsval \<Rightarrow> 'a list option \<Rightarrow> bool" where
  "optional_list F JUndefined r = (r = None)"
| "optional_list F (JArr items) r = (\<exists>vs. r = Some vs \<and> list_all2 F items vs)"
| "optional_list F _ r = False"

definition spec_of :: "jsval \<Rightarrow> AgentSpec \<Rightarrow> bool" where
  "spec_of d spec \<longleftrightarrow>
     get_prop d ''name'' = JStr (name spec) \<and> name spec \<noteq> [] \<and> regex_test name_regex (name spec)
     \<and> get_prop d ''model'' = JStr (model spec) \<and> model spec \<in> set SUPPORTED_MODELS
     \<and> get_prop d ''description'' = JStr (description spec) \<and> description spec \<noteq> []
     \<and> optional_list tool_form (get_prop d ''tools'') (tools spec)
     \<and> optional_list skill_form (get_prop d ''skills'') (skills spec)
     \<and> optional_list acl_form (get_prop d ''acl'') (acl spec)"

text \<open>A parser is located when every issue it reports lies at or below its own path.\<close>

definition located :: "'a parser \<Rightarrow> bool" where
  "located P \<longleftrightarrow> (\<forall>p d. \<forall>z \<in> set (fst (P p d)). prefix p (path z))"

text \<open>
  Modelled from the spec: the three recognized principal patterns, \<^verbatim>\<open>user:<id>\<close>,
  \<^verbatim>\<open>group:<name>\<close> and \<^verbatim>\<open>serviceaccount:<name>\<close> (a kind, a colon and a non-empty
  identifier).  No code of the repository checks them; they are stated here to compare
  the schema of \<^verbatim>\<open>acl\<close> entries with them.
\<close>

definition has_kind :: "string \<Rightarrow> string \<Rightarrow> bool" where
  "has_kind kind s \<longleftrightarrow> prefix (kind @ '':'') s \<and> length (kind @ '':'') < length s"

definition recognized_principal :: "string \<Rightarrow> bool" where
  "recognized_principal s \<longleftrightarrow>
     has_kind ''user'' s \<or> has_kind ''group'' s \<or> has_kind ''serviceaccount'' s"

text \<open>
  The recognized part of a document: the six keys of the schema at the top, and in
  every entry of \<^verbatim>\<open>tools\<close> and of \<^verbatim>\<open>acl\<close> the keys of the entry schemas; every
  other key is removed.
\<close>

fun keep_keys :: "string list \<Rightarrow> jsval \<Rightarrow> jsval" where
  "keep_keys ks (JObj kvs) = JObj (filter (\<lambda>kv. fst kv \<in> set ks) kvs)"
| "keep_keys ks v = v"

fun map_items :: "(jsval \<Rightarrow> jsval) \<Rightarrow> jsval \<Rightarrow> jsval" where
  "map_items f (JArr items) = JArr (map f items)"
| "map_items f v = v"

fun strip_field :: "string \<times> jsval \<Rightarrow> string \<times> jsval" where
  "strip_field (k, v) =
     (k, if k = ''tools'' then map_items (keep_keys [''server'', ''name'', ''access'']) v
         else if k = ''acl'' then map_items (keep_keys [''principal'', ''role'']) v
         else v)"

fun strip_unknown :: "jsval \<Rightarrow> jsval" where
  "strip_unknown (JObj kvs) =
     JObj (map strip_field
       (filter (\<lambda>kv. fst kv \<in> set [''name'', ''model'', ''description'', ''tools'', ''skills'', ''acl''])
          kvs))"
| "strip_unknown v = v"









definition path_text :: "path_elem list \<Rightarrow> string" where
  "path_text p = join ''.'' (map path_elem_text p)"







section \<open>Basic facts\<close>

lemma join_member:
  "x \<in> set xs \<Longrightarrow> \<exists>pre post. join sep xs = pre @ x @ post"
proof (induction sep xs rule: join.induct)
  case (1 sep)
  then show ?case by simp
next
  case (2 sep x')
  then have "join sep [x'] = [] @ x @ []" by simp
  then show ?case by blast
next
  case (3 sep a b bs)
  show ?case
  proof (cases "x = a")
    case True
    then have "join sep (a # b # bs) = [] @ x @ (sep @ join sep (b # bs))" by simp
    then show ?thesis by blast
  next
    case False
    with 3 obtain pre post where "join sep (b # bs) = pre @ x @ post" by auto
    then have "join sep (a # b # bs) = (a @ sep @ pre) @ x @ post" by simp
    then show ?thesis by blast
  qed
qed

lemma join_sublist: "x \<in> set xs \<Longrightarrow> sublist x (join sep xs)"
  using join_member [of x xs sep] by (auto simp: sublist_def)


lemma issues_SpecParseError [simp]: "issues (SpecParseError is) = is"
  by (simp add: SpecParseError_def)



lemma soundD: "sound P \<Longrightarrow> (fst (P p d) = []) = is_valid (snd (P p d))"
  by (simp add: sound_def)

lemma is_valid_merge_field [simp]:
  "is_valid (merge_field f v) = (is_valid f \<and> is_valid v)"
  by (cases f; cases v) simp_all

lemma is_valid_map_return [simp]: "is_valid (map_return f r) = is_valid r"
  by (cases r) simp_all

lemma is_valid_mergeArray [simp]: "is_valid (mergeArray rs) = list_all is_valid rs"
proof (induction rs)
  case Nil
  then show ?case by simp
next
  case (Cons r rs)
  then show ?case by (cases r; cases "mergeArray rs") auto
qed

lemma sound_ZodString: "sound (ZodString cs)"
  by (auto simp: sound_def ZodString_def Let_def split: jsval.splits)

lemma sound_ZodEnum: "sound (ZodEnum vs)"
  by (auto simp: sound_def ZodEnum_def split: jsval.splits)

lemma sound_ZodOptional: "sound P \<Longrightarrow> sound (ZodOptional P)"
  by (auto simp: sound_def ZodOptional_def split_beta)

lemma sound_ZodArray:
  assumes "sound el"
  shows "sound (ZodArray el)"
proof -
  have "(concat (map fst (parse_items el p items)) = [])
          = list_all is_valid (map snd (parse_items el p items))" for p items
    using assms by (auto simp: parse_items_def sound_def list_all_iff)
  then show ?thesis
    by (auto simp: sound_def ZodArray_def Let_def split: jsval.splits)
qed

lemma find_Some_set: "find Q xs = Some x \<Longrightarrow> x \<in> set xs \<and> Q x"
  by (induction xs) (auto split: if_splits)

lemma sound_ZodUnion:
  assumes "\<And>P. P \<in> set Ps \<Longrightarrow> sound P"
  shows "sound (ZodUnion Ps)"
proof -
  { fix p d r
    assume f: "find (\<lambda>r. is_dirty (snd r)) (map (\<lambda>option. option p d) Ps) = Some r"
    from find_Some_set [OF f] obtain P where "P \<in> set Ps" "r = P p d" "is_dirty (snd r)"
      by auto
    with assms [of P] have "fst r \<noteq> []" "\<not> is_valid (snd r)"
      by (cases "snd (P p d)"; simp add: sound_def)+
  } note dirty = this
  { fix p d r
    assume f: "find (\<lambda>r. is_valid (snd r)) (map (\<lambda>option. option p d) Ps) = Some r"
    from find_Some_set [OF f] have "is_valid (snd r)" by simp
  } note valid = this
  show ?thesis
    unfolding sound_def ZodUnion_def Let_def
    by (auto split: option.splits dest: dirty valid)
qed

lemma sound_mcpToolSchema: "sound mcpToolSchema"
  using sound_ZodString [of "[Min 1 None]"] sound_ZodEnum [of "[''read'', ''write'']"]
  by (auto simp: sound_def mcpToolSchema_def not_an_object_def split_beta)

lemma sound_localToolSchema: "sound localToolSchema"
  using sound_ZodString [of "[Min 1 None]"] sound_ZodEnum [of "[''read'', ''write'']"]
  by (auto simp: sound_def localToolSchema_def not_an_object_def split_beta)

lemma sound_toolSchema: "sound toolSchema"
  unfolding toolSchema_def
  by (rule sound_ZodUnion) (auto simp: sound_mcpToolSchema sound_localToolSchema)

lemma sound_aclEntrySchema: "sound aclEntrySchema"
  using sound_ZodString [of "[Min 1 None]"] sound_ZodEnum [of "[''execute'', ''read'']"]
  by (auto simp: sound_def aclEntrySchema_def not_an_object_def split_beta)

lemma sound_fields:
  "sound nameSchema" "sound descriptionSchema" "sound toolsSchema" "sound skillsSchema"
  "sound aclSchema"
  by (simp_all add: nameSchema_def descriptionSchema_def toolsSchema_def skillsSchema_def
      aclSchema_def sound_ZodString sound_ZodOptional sound_ZodArray sound_toolSchema
      sound_aclEntrySchema)

lemma modelSchema_cases:
  "modelSchema p d = Throws Thrown_TypeError \<and> js_to_string d = None
   \<or> (\<exists>s. d = JStr s \<and> s \<in> set SUPPORTED_MODELS \<and> modelSchema p d = Returns ([], OK s))
   \<or> (\<exists>t. js_to_string d = Some t \<and> (\<forall>s. d = JStr s \<longrightarrow> s \<notin> set SUPPORTED_MODELS) \<and>
        modelSchema p d = Returns
          ([\<lparr>path = p, message = ''Unknown model '' @ [CHR 0x22] @ t @ [CHR 0x22] @ ''. Supported: ''
                     @ join '', '' SUPPORTED_MODELS\<rparr>], INVALID))"
  by (cases d; cases "js_to_string d")
     (auto simp: modelSchema_def ZodEnum_errorMap_def model_errorMap_def Let_def)

lemma modelSchema_throws:
  "modelSchema p d = Throws e \<Longrightarrow> e = Thrown_TypeError"
  using modelSchema_cases [of p d] by auto

lemma modelSchema_sound:
  "modelSchema p d = Returns (zs, r) \<Longrightarrow> (zs = []) = is_valid r"
  using modelSchema_cases [of p d] by auto

lemma agentSpecSchema_throws:
  "agentSpecSchema p d = Throws e \<Longrightarrow> e = Thrown_TypeError"
  using modelSchema_throws
  by (auto simp: agentSpecSchema_def Let_def split: if_splits prod.splits outcome.splits)

lemma agentSpecSchema_sound:
  assumes "agentSpecSchema p d = Returns (zs, r)"
  shows "(zs = []) = is_valid r"
proof (cases "getParsedType d = ''object''")
  case False
  with assms show ?thesis by (auto simp: agentSpecSchema_def not_an_object_def)
next
  case True
  with assms show ?thesis
    using sound_fields [THEN soundD] modelSchema_sound
    by (auto simp: agentSpecSchema_def Let_def split_beta split: outcome.splits)
qed

lemma safeParse_agentSpecSchema_throws:
  assumes "safeParse agentSpecSchema d = Throws e"
  shows "e = Thrown_TypeError"
proof (cases "agentSpecSchema [] d")
  case (Throws e')
  with assms agentSpecSchema_throws show ?thesis by (auto simp: safeParse_def)
next
  case (Returns zr)
  obtain zs r where zr: "zr = (zs, r)" by (cases zr)
  from agentSpecSchema_sound [of "[]" d zs r] Returns zr have "(zs = []) = is_valid r" by simp
  with assms Returns zr show ?thesis
    by (cases r) (auto simp: safeParse_def)
qed


section \<open>Matching the pattern of names\<close>

lemma dead_not_nullable: "dead r \<Longrightarrow> \<not> nullable r"
  by (induction r) auto

lemma dead_deriv: "dead r \<Longrightarrow> dead (deriv c r)"
  by (induction r) (auto simp: dead_not_nullable)

lemma regex_test_dead: "dead r \<Longrightarrow> \<not> regex_test r w"
  by (induction w arbitrary: r) (auto simp: dead_not_nullable dead_deriv)

lemma regex_test_Alt: "regex_test (Alt r s) w = (regex_test r w \<or> regex_test s w)"
  by (induction w arbitrary: r s) auto

lemma regex_test_Seq_Empty: "regex_test (Seq Empty r) w = regex_test r w"
  by (cases w) (auto simp: regex_test_Alt regex_test_dead)

lemma regex_test_Star_Class:
  "regex_test (Star (Class rs)) w = list_all (in_class rs) w"
proof (induction w)
  case Nil
  then show ?case by simp
next
  case (Cons c w)
  then show ?case by (simp add: regex_test_Seq_Empty regex_test_dead)
qed

lemma regex_test_Class_Star:
  "regex_test (Seq (Class rs) (Star (Class rs'))) w
     = (case w of [] \<Rightarrow> False | c # cs \<Rightarrow> in_class rs c \<and> list_all (in_class rs') cs)"
  by (cases w) (simp_all add: regex_test_Seq_Empty regex_test_Star_Class regex_test_dead)

lemma char_cases_nat:
  fixes c :: char
  obtains n :: nat where "n < 256" "c = char_of n" "of_char c = n"
proof -
  have "(of_char c :: nat) < 256" by simp
  moreover have "c = char_of (of_char c :: nat)" by simp
  ultimately show ?thesis using that by blast
qed

lemma lower_range: "lowercase_letter c = (97 \<le> (of_char c :: nat) \<and> (of_char c :: nat) \<le> 122)"
proof
  assume "lowercase_letter c"
  then show "97 \<le> (of_char c :: nat) \<and> (of_char c :: nat) \<le> 122"
    by (auto simp: lowercase_letter_def)
next
  assume r: "97 \<le> (of_char c :: nat) \<and> (of_char c :: nat) \<le> 122"
  obtain n :: nat where n: "c = char_of n" "of_char c = n" by (rule char_cases_nat)
  with r have "n \<in> {97 ..< 123}" by simp
  then have "n \<in> set [97 ..< 123]" by (simp only: set_upt)
  then have "char_of n \<in> set (map char_of [97 ..< 123 :: nat])" by (simp only: set_map imageI)
  also have "map char_of [97 ..< 123 :: nat] = ''abcdefghijklmnopqrstuvwxyz''" by code_simp
  finally show "lowercase_letter c" using n by (simp add: lowercase_letter_def)
qed

lemma digit_range: "digit c = (48 \<le> (of_char c :: nat) \<and> (of_char c :: nat) \<le> 57)"
proof
  assume "digit c"
  then show "48 \<le> (of_char c :: nat) \<and> (of_char c :: nat) \<le> 57"
    by (auto simp: digit_def)
next
  assume r: "48 \<le> (of_char c :: nat) \<and> (of_char c :: nat) \<le> 57"
  obtain n :: nat where n: "c = char_of n" "of_char c = n" by (rule char_cases_nat)
  with r have "n \<in> {48 ..< 58}" by simp
  then have "n \<in> set [48 ..< 58]" by (simp only: set_upt)
  then have "char_of n \<in> set (map char_of [48 ..< 58 :: nat])" by (simp only: set_map imageI)
  also have "map char_of [48 ..< 58 :: nat] = ''0123456789''" by code_simp
  finally show "digit c" using n by (simp add: digit_def)
qed

lemma hyphen_range: "(c = CHR ''-'') = (45 \<le> (of_char c :: nat) \<and> (of_char c :: nat) \<le> 45)"
proof -
  obtain n :: nat where n: "n < 256" "c = char_of n" "of_char c = n" by (rule char_cases_nat)
  have "(char_of n = CHR ''-'') = (n = 45)"
  proof
    assume "char_of n = CHR ''-''"
    then have "(of_char (char_of n) :: nat) = of_char (CHR ''-'')" by simp
    with n show "n = 45" by simp
  next
    have "char_of (45 :: nat) = CHR ''-''" by code_simp
    moreover assume "n = 45"
    ultimately show "char_of n = CHR ''-''" by simp
  qed
  with n show ?thesis by auto
qed

lemma in_class_lower_digit:
  "in_class [(CHR ''a'', CHR ''z''), (CHR ''0'', CHR ''9'')] c = (lowercase_letter c \<or> digit c)"
  by (simp add: in_class_def lower_range digit_range)

lemma in_class_lower_digit_hyphen:
  "in_class [(CHR ''a'', CHR ''z''), (CHR ''0'', CHR ''9''), (CHR ''-'', CHR ''-'')] c
     = (lowercase_letter c \<or> digit c \<or> c = CHR ''-'')"
  by (simp add: in_class_def lower_range digit_range hyphen_range)

lemma name_regex_test:
  "regex_test name_regex s
     = (s \<noteq> [] \<and> (lowercase_letter (hd s) \<or> digit (hd s))
        \<and> (\<forall>c \<in> set s. lowercase_letter c \<or> digit c \<or> c = CHR ''-''))"
  by (auto simp: name_regex_def regex_test_Class_Star in_class_lower_digit
        in_class_lower_digit_hyphen list_all_iff split: list.splits)

section \<open>What the schema accepts\<close>

lemma snd_ZodString:
  "snd (ZodString cs p d)
     = (case d of JStr s \<Rightarrow> if list_all (\<lambda>c. check_ok c s) cs then OK s else DIRTY s
        | _ \<Rightarrow> INVALID)"
  by (auto simp: ZodString_def Let_def filter_empty_conv list_all_iff split: jsval.splits)

lemma snd_ZodEnum:
  "snd (ZodEnum vs p d)
     = (case d of JStr s \<Rightarrow> if s \<in> set vs then OK s else INVALID | _ \<Rightarrow> INVALID)"
  by (auto simp: ZodEnum_def split: jsval.splits)

lemma ZodString_Min1_OK:
  "snd (ZodString [Min (Suc 0) m] p d) = OK s \<longleftrightarrow> d = JStr s \<and> s \<noteq> []"
  by (auto simp: snd_ZodString split: jsval.splits)


lemma ZodEnum_OK:
  "snd (ZodEnum vs p d) = OK s \<longleftrightarrow> d = JStr s \<and> s \<in> set vs"
  by (auto simp: snd_ZodEnum split: jsval.splits)

lemma ZodEnum_not_dirty: "snd (ZodEnum vs p d) \<noteq> DIRTY s"
  by (auto simp: snd_ZodEnum split: jsval.splits)

lemma merge_field_OK:
  "merge_field f r = OK v \<longleftrightarrow> (\<exists>g x. f = OK g \<and> r = OK x \<and> v = g x)"
  by (cases f; cases r) auto

lemma getParsedType_object: "getParsedType d = ''object'' \<longleftrightarrow> (\<exists>kvs. d = JObj kvs)"
  by (cases d) auto

lemma get_prop_not_undefined: "get_prop d k \<noteq> JUndefined \<Longrightarrow> \<exists>kvs. d = JObj kvs"
  by (cases d) auto

lemma mcpToolSchema_OK:
  "snd (mcpToolSchema p d) = OK t \<longleftrightarrow>
     (\<exists>s a. t = McpTool s a \<and> get_prop d ''server'' = JStr s \<and> s \<noteq> []
        \<and> get_prop d ''access'' = JStr a \<and> a \<in> set [''read'', ''write''])"
proof (cases "getParsedType d = ''object''")
  case True
  then show ?thesis
    by (auto simp: mcpToolSchema_def split_beta merge_field_OK ZodString_Min1_OK ZodEnum_OK)
next
  case False
  then have "get_prop d ''server'' = JUndefined" by (cases d) auto
  with False show ?thesis by (auto simp: mcpToolSchema_def not_an_object_def)
qed

lemma localToolSchema_OK:
  "snd (localToolSchema p d) = OK t \<longleftrightarrow>
     (\<exists>n a. t = LocalTool n a \<and> get_prop d ''name'' = JStr n \<and> n \<noteq> []
        \<and> get_prop d ''access'' = JStr a \<and> a \<in> set [''read'', ''write''])"
proof (cases "getParsedType d = ''object''")
  case True
  then show ?thesis
    by (auto simp: localToolSchema_def split_beta merge_field_OK ZodString_Min1_OK ZodEnum_OK)
next
  case False
  then have "get_prop d ''name'' = JUndefined" by (cases d) auto
  with False show ?thesis by (auto simp: localToolSchema_def not_an_object_def)
qed

lemma aclEntrySchema_OK:
  "snd (aclEntrySchema p d) = OK a \<longleftrightarrow> acl_form d a"
proof (cases "getParsedType d = ''object''")
  case True
  then show ?thesis
    by (auto simp: aclEntrySchema_def split_beta merge_field_OK ZodString_Min1_OK ZodEnum_OK)
next
  case False
  then have "get_prop d ''principal'' = JUndefined" by (cases d) auto
  with False show ?thesis by (auto simp: aclEntrySchema_def not_an_object_def)
qed

lemma is_valid_iff: "is_valid r \<longleftrightarrow> (\<exists>v. r = OK v)"
  by (cases r) auto

lemma mcp_valid_iff:
  "is_valid (snd (mcpToolSchema p d)) \<longleftrightarrow>
     nonempty_string (get_prop d ''server'') \<and>
     (\<exists>a. get_prop d ''access'' = JStr a \<and> a \<in> set [''read'', ''write''])"
  unfolding is_valid_iff mcpToolSchema_OK
  by (cases "get_prop d ''server''") auto

lemma toolSchema_OK:
  "snd (toolSchema p d) = OK t \<longleftrightarrow> tool_form d t"
proof -
  let ?m = "mcpToolSchema p d" and ?l = "localToolSchema p d"
  have u: "snd (toolSchema p d)
      = (if is_valid (snd ?m) then snd ?m else if is_valid (snd ?l) then snd ?l
         else if is_dirty (snd ?m) then snd ?m else if is_dirty (snd ?l) then snd ?l
         else INVALID)"
    by (simp add: toolSchema_def ZodUnion_def)
  show ?thesis
  proof (cases "is_valid (snd ?m)")
    case True
    then obtain t' where t': "snd ?m = OK t'" by (auto simp: is_valid_iff)
    with True u have "snd (toolSchema p d) = OK t \<longleftrightarrow> snd ?m = OK t" by simp
    also have "\<dots> \<longleftrightarrow> tool_form d t"
      using True unfolding mcp_valid_iff mcpToolSchema_OK
      by (cases t) auto
    finally show ?thesis .
  next
    case False
    then have nm: "\<And>t. snd ?m \<noteq> OK t" by (auto simp: is_valid_iff)
    have "snd (toolSchema p d) = OK t \<longleftrightarrow> snd ?l = OK t"
      using False u by (cases "snd ?m"; cases "snd ?l") auto
    also have "\<dots> \<longleftrightarrow> tool_form d t"
      using False nm unfolding mcp_valid_iff localToolSchema_OK mcpToolSchema_OK
      by (cases t; cases "get_prop d ''server''") auto
    finally show ?thesis .
  qed
qed


lemma mergeArray_map_OK: "mergeArray (map OK vs) = OK vs"
  by (induction vs) simp_all

lemma mergeArray_OK_D: "mergeArray rs = OK vs \<Longrightarrow> rs = map OK vs"
proof (induction rs arbitrary: vs)
  case Nil
  then show ?case by simp
next
  case (Cons r rs)
  show ?case
  proof (cases r)
    case (OK v)
    with Cons.prems obtain ws where ws: "mergeArray rs = OK ws" "vs = v # ws"
      by (cases "mergeArray rs") simp_all
    from Cons.IH [OF ws(1)] OK ws(2) show ?thesis by simp
  next
    case (DIRTY v)
    with Cons.prems show ?thesis by (cases "mergeArray rs") simp_all
  next
    case INVALID
    with Cons.prems show ?thesis by simp
  qed
qed

lemma mergeArray_OK: "mergeArray rs = OK vs \<longleftrightarrow> rs = map OK vs"
  using mergeArray_OK_D mergeArray_map_OK by blast

lemma ZodArray_OK:
  assumes "\<And>q x v. snd (el q x) = OK v \<longleftrightarrow> F x v"
  shows "snd (ZodArray el p d) = OK vs \<longleftrightarrow> (\<exists>items. d = JArr items \<and> list_all2 F items vs)"
proof (cases d)
  case (JArr items)
  have "map snd (parse_items el p items) = map OK vs \<longleftrightarrow> list_all2 F items vs"
  proof
    assume m: "map snd (parse_items el p items) = map OK vs"
    then have len: "length items = length vs"
      by (metis length_map length_enumerate parse_items_def)
    { fix i assume i: "i < length items"
      from m have "map snd (parse_items el p items) ! i = map OK vs ! i" by simp
      with i len have "snd (el (p @ [Index i]) (items ! i)) = OK (vs ! i)"
        by (simp add: parse_items_def nth_enumerate_eq)
      with assms have "F (items ! i) (vs ! i)" by simp }
    with len show "list_all2 F items vs" by (simp add: list_all2_conv_all_nth)
  next
    assume l: "list_all2 F items vs"
    then have len: "length items = length vs" by (rule list_all2_lengthD)
    show "map snd (parse_items el p items) = map OK vs"
    proof (rule nth_equalityI)
      show "length (map snd (parse_items el p items)) = length (map OK vs)"
        using len by (simp add: parse_items_def)
    next
      fix i assume "i < length (map snd (parse_items el p items))"
      then have i: "i < length items" by (simp add: parse_items_def)
      with l have "F (items ! i) (vs ! i)" by (simp add: list_all2_conv_all_nth)
      with assms have "snd (el (p @ [Index i]) (items ! i)) = OK (vs ! i)" by simp
      with i len show "map snd (parse_items el p items) ! i = map OK vs ! i"
        by (simp add: parse_items_def nth_enumerate_eq)
    qed
  qed
  with JArr show ?thesis by (simp add: ZodArray_def Let_def mergeArray_OK)
qed (simp_all add: ZodArray_def)

lemma map_return_OK: "map_return f r = OK v \<longleftrightarrow> (\<exists>x. r = OK x \<and> v = f x)"
  by (cases r) auto

lemma ZodOptional_ZodArray_OK:
  assumes "\<And>q x v. snd (el q x) = OK v \<longleftrightarrow> F x v"
  shows "snd (ZodOptional (ZodArray el) p d) = OK r \<longleftrightarrow> optional_list F d r"
proof (cases "d = JUndefined")
  case True
  then show ?thesis by (auto simp: ZodOptional_def)
next
  case False
  then have "getParsedType d \<noteq> ''undefined''" by (cases d) auto
  then have "snd (ZodOptional (ZodArray el) p d) = OK r
      \<longleftrightarrow> (\<exists>vs. r = Some vs \<and> snd (ZodArray el p d) = OK vs)"
    by (auto simp: ZodOptional_def split_beta map_return_OK)
  also have "\<dots> \<longleftrightarrow> optional_list F d r"
    using False by (cases d) (auto simp: ZodArray_OK [of el F, OF assms])
  finally show ?thesis .
qed

lemma toolsSchema_OK: "snd (toolsSchema p d) = OK r \<longleftrightarrow> optional_list tool_form d r"
  unfolding toolsSchema_def by (rule ZodOptional_ZodArray_OK) (rule toolSchema_OK)

lemma aclSchema_OK: "snd (aclSchema p d) = OK r \<longleftrightarrow> optional_list acl_form d r"
  unfolding aclSchema_def by (rule ZodOptional_ZodArray_OK) (rule aclEntrySchema_OK)

lemma skillsSchema_OK: "snd (skillsSchema p d) = OK r \<longleftrightarrow> optional_list skill_form d r"
  unfolding skillsSchema_def
  by (rule ZodOptional_ZodArray_OK) (auto simp: ZodString_Min1_OK)

lemma nameSchema_OK:
  "snd (nameSchema p d) = OK s \<longleftrightarrow> d = JStr s \<and> s \<noteq> [] \<and> regex_test name_regex s"
  by (auto simp: nameSchema_def snd_ZodString split: jsval.splits)

lemma descriptionSchema_OK:
  "snd (descriptionSchema p d) = OK s \<longleftrightarrow> d = JStr s \<and> s \<noteq> []"
  by (auto simp: descriptionSchema_def snd_ZodString split: jsval.splits)

lemma modelSchema_OK:
  "modelSchema p d = Returns (zs, OK s) \<longleftrightarrow> d = JStr s \<and> s \<in> set SUPPORTED_MODELS \<and> zs = []"
  using modelSchema_cases [of p d] by auto


lemma sound_OK_Nil: "sound P \<Longrightarrow> snd (P p d) = OK v \<Longrightarrow> fst (P p d) = []"
  by (simp add: sound_def)

lemma agentSpecSchema_object:
  assumes "getParsedType d = ''object''"
    and "modelSchema (p @ [Key ''model'']) (get_prop d ''model'') = Returns (i2, r2)"
  shows "agentSpecSchema p d = Returns
     (fst (nameSchema (p @ [Key ''name'']) (get_prop d ''name'')) @ i2
        @ fst (descriptionSchema (p @ [Key ''description'']) (get_prop d ''description''))
        @ fst (toolsSchema (p @ [Key ''tools'']) (get_prop d ''tools''))
        @ fst (skillsSchema (p @ [Key ''skills'']) (get_prop d ''skills''))
        @ fst (aclSchema (p @ [Key ''acl'']) (get_prop d ''acl'')),
      merge_field (merge_field (merge_field (merge_field (merge_field (merge_field
        (OK make_AgentSpec)
        (snd (nameSchema (p @ [Key ''name'']) (get_prop d ''name''))))
        r2)
        (snd (descriptionSchema (p @ [Key ''description'']) (get_prop d ''description''))))
        (snd (toolsSchema (p @ [Key ''tools'']) (get_prop d ''tools''))))
        (snd (skillsSchema (p @ [Key ''skills'']) (get_prop d ''skills''))))
        (snd (aclSchema (p @ [Key ''acl'']) (get_prop d ''acl''))))"
  using assms by (simp add: agentSpecSchema_def split_beta)

lemma agentSpecSchema_object_throws:
  assumes "getParsedType d = ''object''"
    and "modelSchema (p @ [Key ''model'']) (get_prop d ''model'') = Throws e"
  shows "agentSpecSchema p d = Throws e"
  using assms by (simp add: agentSpecSchema_def split_beta)

lemma make_AgentSpec_eq:
  "spec = make_AgentSpec n m de t s a \<longleftrightarrow>
     name spec = n \<and> model spec = m \<and> description spec = de \<and> tools spec = t
     \<and> skills spec = s \<and> acl spec = a"
  by (cases spec) (auto simp: make_AgentSpec_def)

lemma agentSpecSchema_OK_D:
  assumes "agentSpecSchema p d = Returns (zs, OK spec)"
  shows "spec_of d spec"
proof -
  from assms have obj: "getParsedType d = ''object''"
    by (auto simp: agentSpecSchema_def not_an_object_def split: if_splits)
  from assms obj obtain i2 r2 where
    m: "modelSchema (p @ [Key ''model'']) (get_prop d ''model'') = Returns (i2, r2)"
    by (cases "modelSchema (p @ [Key ''model'']) (get_prop d ''model'')")
       (auto simp: agentSpecSchema_object_throws)
  from assms agentSpecSchema_object [OF obj m]
  obtain n de t s a mo where
    parts: "snd (nameSchema (p @ [Key ''name'']) (get_prop d ''name'')) = OK n"
      "r2 = OK mo"
      "snd (descriptionSchema (p @ [Key ''description'']) (get_prop d ''description'')) = OK de"
      "snd (toolsSchema (p @ [Key ''tools'']) (get_prop d ''tools'')) = OK t"
      "snd (skillsSchema (p @ [Key ''skills'']) (get_prop d ''skills'')) = OK s"
      "snd (aclSchema (p @ [Key ''acl'']) (get_prop d ''acl'')) = OK a"
      "spec = make_AgentSpec n mo de t s a"
    by (auto simp: merge_field_OK)
  from m parts(2) have "get_prop d ''model'' = JStr mo \<and> mo \<in> set SUPPORTED_MODELS"
    by (simp add: modelSchema_OK)
  with parts show ?thesis
    by (simp add: spec_of_def make_AgentSpec_eq nameSchema_OK descriptionSchema_OK
        toolsSchema_OK skillsSchema_OK aclSchema_OK)
qed

lemma agentSpecSchema_OK_I:
  assumes "spec_of d spec"
  shows "agentSpecSchema p d = Returns ([], OK spec)"
proof -
  from assms have "get_prop d ''name'' \<noteq> JUndefined" by (simp add: spec_of_def)
  then have obj: "getParsedType d = ''object''" by (cases d) auto
  from assms have
    m: "modelSchema (p @ [Key ''model'']) (get_prop d ''model'') = Returns ([], OK (model spec))"
    by (simp add: spec_of_def modelSchema_OK)
  from assms have parts:
      "snd (nameSchema (p @ [Key ''name'']) (get_prop d ''name'')) = OK (name spec)"
      "snd (descriptionSchema (p @ [Key ''description'']) (get_prop d ''description''))
         = OK (description spec)"
      "snd (toolsSchema (p @ [Key ''tools'']) (get_prop d ''tools'')) = OK (tools spec)"
      "snd (skillsSchema (p @ [Key ''skills'']) (get_prop d ''skills'')) = OK (skills spec)"
      "snd (aclSchema (p @ [Key ''acl'']) (get_prop d ''acl'')) = OK (acl spec)"
    by (simp_all add: spec_of_def nameSchema_OK descriptionSchema_OK
        toolsSchema_OK skillsSchema_OK aclSchema_OK)
  have spec: "make_AgentSpec (name spec) (model spec) (description spec) (tools spec)
      (skills spec) (acl spec) = spec"
    by (simp add: make_AgentSpec_def)
  show ?thesis
    unfolding agentSpecSchema_object [OF obj m]
    using parts
    by (simp add: sound_OK_Nil [OF sound_fields(1) parts(1)]
        sound_OK_Nil [OF sound_fields(2) parts(2)]
        sound_OK_Nil [OF sound_fields(3) parts(3)]
        sound_OK_Nil [OF sound_fields(4) parts(4)]
        sound_OK_Nil [OF sound_fields(5) parts(5)] spec)
qed

lemma parseAgentSpec_Returns_iff:
  "parseAgentSpec parseYaml y = Returns spec
     \<longleftrightarrow> (\<exists>d. parseYaml y = Inr d \<and> spec_of d spec)"
proof
  assume r: "parseAgentSpec parseYaml y = Returns spec"
  then obtain d where d: "parseYaml y = Inr d"
    by (cases "parseYaml y") (auto simp: parseAgentSpec_def)
  with r have "safeParse agentSpecSchema d = Returns (Success spec)"
    by (auto simp: parseAgentSpec_def split: if_splits outcome.splits SafeParseReturn.splits)
  then obtain zs where "agentSpecSchema [] d = Returns (zs, OK spec)"
    by (auto simp: safeParse_def split: outcome.splits parse_return.splits if_splits)
  then have "spec_of d spec" by (rule agentSpecSchema_OK_D)
  with d show "\<exists>d. parseYaml y = Inr d \<and> spec_of d spec" by blast
next
  assume "\<exists>d. parseYaml y = Inr d \<and> spec_of d spec"
  then obtain d where d: "parseYaml y = Inr d" "spec_of d spec" by blast
  then have a: "agentSpecSchema [] d = Returns ([], OK spec)" by (simp add: agentSpecSchema_OK_I)
  from d(2) have "get_prop d ''name'' \<noteq> JUndefined" by (simp add: spec_of_def)
  then have "\<exists>kvs. d = JObj kvs" by (cases d) auto
  with d a show "parseAgentSpec parseYaml y = Returns spec"
    by (auto simp: parseAgentSpec_def safeParse_def)
qed

lemma get_prop_Cons:
  "get_prop (JObj ((k, v) # kvs)) k' = (if k' = k then v else get_prop (JObj kvs) k')"
  by simp

lemma spec_of_name_swap:
  assumes "spec_of (JObj ((''name'', v) # kvs)) spec"
    and "s \<noteq> []" and "regex_test name_regex s"
  shows "spec_of (JObj ((''name'', JStr s) # kvs)) (spec\<lparr>name := s\<rparr>)"
  using assms by (simp add: spec_of_def)

section \<open>Where the issues lie\<close>

lemma locatedD: "located P \<Longrightarrow> z \<in> set (fst (P p d)) \<Longrightarrow> prefix p (path z)"
  by (auto simp: located_def)

lemma locatedD_app:
  "located P \<Longrightarrow> z \<in> set (fst (P (p @ q) d)) \<Longrightarrow> prefix p (path z)"
  using locatedD [of P z "p @ q" d] by (auto dest: append_prefixD)

lemma located_ZodString: "located (ZodString cs)"
  by (auto simp: located_def ZodString_def Let_def split: jsval.splits)

lemma located_ZodEnum: "located (ZodEnum vs)"
  by (auto simp: located_def ZodEnum_def split: jsval.splits)

lemma located_ZodOptional: "located P \<Longrightarrow> located (ZodOptional P)"
  by (auto simp: located_def ZodOptional_def split_beta)

lemma located_ZodArray:
  assumes "located el"
  shows "located (ZodArray el)"
proof -
  { fix p items z
    assume "z \<in> set (concat (map fst (parse_items el p items)))"
    then obtain i x where "z \<in> set (fst (el (p @ [Index i]) x))"
      by (auto simp: parse_items_def)
    with assms have "prefix p (path z)" by (rule locatedD_app) }
  then show ?thesis
    by (auto simp: located_def ZodArray_def Let_def split: jsval.splits)
qed

lemma located_ZodUnion:
  assumes "\<And>P. P \<in> set Ps \<Longrightarrow> located P"
  shows "located (ZodUnion Ps)"
proof -
  { fix p d r z
    assume f: "find (\<lambda>r. is_dirty (snd r)) (map (\<lambda>option. option p d) Ps) = Some r"
      and z: "z \<in> set (fst r)"
    from find_Some_set [OF f] obtain P where "P \<in> set Ps" "r = P p d" by auto
    with assms [of P] z have "prefix p (path z)" by (auto dest: locatedD) }
  then show ?thesis
    unfolding located_def ZodUnion_def Let_def
    by (auto split: option.splits)
qed

lemma located_mcpToolSchema: "located mcpToolSchema"
  by (auto simp: located_def mcpToolSchema_def not_an_object_def split_beta
      dest: located_ZodString [THEN locatedD_app] located_ZodEnum [THEN locatedD_app])

lemma located_localToolSchema: "located localToolSchema"
  by (auto simp: located_def localToolSchema_def not_an_object_def split_beta
      dest: located_ZodString [THEN locatedD_app] located_ZodEnum [THEN locatedD_app])

lemma located_aclEntrySchema: "located aclEntrySchema"
  by (auto simp: located_def aclEntrySchema_def not_an_object_def split_beta
      dest: located_ZodString [THEN locatedD_app] located_ZodEnum [THEN locatedD_app])

lemma located_toolSchema: "located toolSchema"
  unfolding toolSchema_def
  by (rule located_ZodUnion) (auto simp: located_mcpToolSchema located_localToolSchema)

lemma located_fields:
  "located nameSchema" "located descriptionSchema" "located toolsSchema"
  "located skillsSchema" "located aclSchema"
  by (simp_all add: nameSchema_def descriptionSchema_def toolsSchema_def skillsSchema_def
      aclSchema_def located_ZodString located_ZodOptional located_ZodArray located_toolSchema
      located_aclEntrySchema)

lemma formatZodIssue_prefix:
  assumes "prefix [Key k] (path z)"
  shows "prefix k (formatZodIssue z)"
proof -
  from assms obtain ps where ps: "path z = Key k # ps" by (auto simp: prefix_def)
  have "prefix k (join ''.'' (k # xs))" for xs by (cases xs) simp_all
  with ps show ?thesis by (simp add: formatZodIssue_def)
qed


lemma merge_field_INVALID [simp]: "merge_field f INVALID = INVALID"
  by (cases f) simp_all

lemma optional_fields_valid_iff:
  "fst (toolsSchema p (get_prop d ''tools'')) = [] \<and> fst (skillsSchema q (get_prop d ''skills'')) = []
     \<and> fst (aclSchema r (get_prop d ''acl'')) = []
   \<longleftrightarrow> (\<exists>t s a. optional_list tool_form (get_prop d ''tools'') t
          \<and> optional_list skill_form (get_prop d ''skills'') s
          \<and> optional_list acl_form (get_prop d ''acl'') a)"
  by (simp add: sound_fields [THEN soundD] is_valid_iff toolsSchema_OK skillsSchema_OK
      aclSchema_OK)

lemma agentSpecSchema_root:
  assumes "getParsedType d = ''object''"
    and "modelSchema [Key ''model''] (get_prop d ''model'') = Returns (i2, r2)"
  shows "agentSpecSchema [] d = Returns
     (fst (nameSchema [Key ''name''] (get_prop d ''name'')) @ i2
        @ fst (descriptionSchema [Key ''description''] (get_prop d ''description''))
        @ fst (toolsSchema [Key ''tools''] (get_prop d ''tools''))
        @ fst (skillsSchema [Key ''skills''] (get_prop d ''skills''))
        @ fst (aclSchema [Key ''acl''] (get_prop d ''acl'')),
      merge_field (merge_field (merge_field (merge_field (merge_field (merge_field
        (OK make_AgentSpec)
        (snd (nameSchema [Key ''name''] (get_prop d ''name''))))
        r2)
        (snd (descriptionSchema [Key ''description''] (get_prop d ''description''))))
        (snd (toolsSchema [Key ''tools''] (get_prop d ''tools''))))
        (snd (skillsSchema [Key ''skills''] (get_prop d ''skills''))))
        (snd (aclSchema [Key ''acl''] (get_prop d ''acl''))))"
  using agentSpecSchema_object [of d "[]"] assms by simp

section \<open>Entries of the lists\<close>

lemma list_all2_insert_ex:
  "(\<exists>vs. list_all2 F (xs @ [e] @ ys) vs)
     \<longleftrightarrow> (\<exists>v. F e v) \<and> (\<exists>vs. list_all2 F (xs @ ys) vs)"
proof
  assume "\<exists>vs. list_all2 F (xs @ [e] @ ys) vs"
  then obtain vs where "list_all2 F (xs @ [e] @ ys) vs" ..
  then obtain us v ws where "list_all2 F xs us" "F e v" "list_all2 F ys ws"
    by (auto simp: list_all2_append1 list_all2_Cons1)
  then have "F e v" "list_all2 F (xs @ ys) (us @ ws)"
    by (simp_all add: list_all2_appendI)
  then show "(\<exists>v. F e v) \<and> (\<exists>vs. list_all2 F (xs @ ys) vs)" by blast
next
  assume "(\<exists>v. F e v) \<and> (\<exists>vs. list_all2 F (xs @ ys) vs)"
  then obtain v vs where v: "F e v" and "list_all2 F (xs @ ys) vs" by blast
  then obtain us ws where "list_all2 F xs us" "list_all2 F ys ws"
    by (auto simp: list_all2_append1)
  with v have "list_all2 F (xs @ [e] @ ys) (us @ [v] @ ws)"
    by (intro list_all2_appendI) simp_all
  then show "\<exists>vs. list_all2 F (xs @ [e] @ ys) vs" ..
qed

lemma optional_list_insert_ex:
  "(\<exists>r. optional_list F (JArr (xs @ [e] @ ys)) r)
     \<longleftrightarrow> (\<exists>v. F e v) \<and> (\<exists>r. optional_list F (JArr (xs @ ys)) r)"
  using list_all2_insert_ex [of F xs e ys] by simp

text \<open>Acceptance of a document, field by field.\<close>

lemma accepted_iff:
  "(\<exists>spec. parseAgentSpec (\<lambda>_. Inr d) y = Returns spec)
     \<longleftrightarrow> (\<exists>n. get_prop d ''name'' = JStr n \<and> n \<noteq> [] \<and> regex_test name_regex n)
       \<and> (\<exists>m. get_prop d ''model'' = JStr m \<and> m \<in> set SUPPORTED_MODELS)
       \<and> (\<exists>de. get_prop d ''description'' = JStr de \<and> de \<noteq> [])
       \<and> (\<exists>t. optional_list tool_form (get_prop d ''tools'') t)
       \<and> (\<exists>s. optional_list skill_form (get_prop d ''skills'') s)
       \<and> (\<exists>a. optional_list acl_form (get_prop d ''acl'') a)"
  (is "?L \<longleftrightarrow> ?R")
proof
  assume ?L
  then show ?R by (auto simp: parseAgentSpec_Returns_iff spec_of_def)
next
  assume ?R
  then obtain n m de t s a where
    "get_prop d ''name'' = JStr n" "n \<noteq> []" "regex_test name_regex n"
    "get_prop d ''model'' = JStr m" "m \<in> set SUPPORTED_MODELS"
    "get_prop d ''description'' = JStr de" "de \<noteq> []"
    "optional_list tool_form (get_prop d ''tools'') t"
    "optional_list skill_form (get_prop d ''skills'') s"
    "optional_list acl_form (get_prop d ''acl'') a"
    by blast
  then have "spec_of d \<lparr>name = n, model = m, description = de, tools = t, skills = s, acl = a\<rparr>"
    by (simp add: spec_of_def)
  then show ?L unfolding parseAgentSpec_Returns_iff by blast
qed

lemma acl_form_ex:
  "(\<exists>a. acl_form e a) \<longleftrightarrow>
     nonempty_string (get_prop e ''principal'')
     \<and> (get_prop e ''role'' = JStr ''execute'' \<or> get_prop e ''role'' = JStr ''read'')"
proof
  assume "\<exists>a. acl_form e a"
  then show "nonempty_string (get_prop e ''principal'')
     \<and> (get_prop e ''role'' = JStr ''execute'' \<or> get_prop e ''role'' = JStr ''read'')"
    by auto
next
  assume r: "nonempty_string (get_prop e ''principal'')
     \<and> (get_prop e ''role'' = JStr ''execute'' \<or> get_prop e ''role'' = JStr ''read'')"
  then obtain s ro where "get_prop e ''principal'' = JStr s" "s \<noteq> []"
    "get_prop e ''role'' = JStr ro" "ro \<in> set [''execute'', ''read'']"
    by (cases "get_prop e ''principal''") auto
  then have "acl_form e \<lparr>principal = s, role = ro\<rparr>" by simp
  then show "\<exists>a. acl_form e a" ..
qed

lemma tool_form_ex:
  "(\<exists>t. tool_form e t) \<longleftrightarrow>
     (nonempty_string (get_prop e ''server'') \<or> nonempty_string (get_prop e ''name''))
     \<and> (get_prop e ''access'' = JStr ''read'' \<or> get_prop e ''access'' = JStr ''write'')"
  (is "?L \<longleftrightarrow> ?R")
proof
  assume ?L
  then obtain t where "tool_form e t" ..
  then show ?R by (cases t) auto
next
  assume r: ?R
  then obtain a where a: "get_prop e ''access'' = JStr a" "a \<in> set [''read'', ''write'']"
    by auto
  show ?L
  proof (cases "nonempty_string (get_prop e ''server'')")
    case True
    then obtain s where "get_prop e ''server'' = JStr s" "s \<noteq> []"
      by (cases "get_prop e ''server''") auto
    with a have "tool_form e (McpTool s a)" by simp
    then show ?thesis ..
  next
    case False
    with r obtain n where "get_prop e ''name'' = JStr n" "n \<noteq> []"
      by (cases "get_prop e ''name''") auto
    with a False have "tool_form e (LocalTool n a)" by simp
    then show ?thesis ..
  qed
qed

section \<open>Unrecognized keys\<close>

lemma map_of_filter_keys:
  "k \<in> S \<Longrightarrow> map_of (filter (\<lambda>kv. fst kv \<in> S) kvs) k = map_of kvs k"
  by (induction kvs) auto

lemma get_prop_keep_keys:
  "k \<in> set ks \<Longrightarrow> get_prop (keep_keys ks e) k = get_prop e k"
  by (cases e) (simp_all add: map_of_filter_keys)

lemma getParsedType_keep_keys [simp]: "getParsedType (keep_keys ks e) = getParsedType e"
  by (cases e) simp_all

lemma mcpToolSchema_keep:
  "mcpToolSchema p (keep_keys [''server'', ''name'', ''access''] e) = mcpToolSchema p e"
  by (simp add: mcpToolSchema_def not_an_object_def get_prop_keep_keys del: get_prop.simps)

lemma localToolSchema_keep:
  "localToolSchema p (keep_keys [''server'', ''name'', ''access''] e) = localToolSchema p e"
  by (simp add: localToolSchema_def not_an_object_def get_prop_keep_keys del: get_prop.simps)

lemma toolSchema_keep:
  "toolSchema p (keep_keys [''server'', ''name'', ''access''] e) = toolSchema p e"
  by (simp add: toolSchema_def ZodUnion_def mcpToolSchema_keep localToolSchema_keep
      del: keep_keys.simps)

lemma aclEntrySchema_keep:
  "aclEntrySchema p (keep_keys [''principal'', ''role''] e) = aclEntrySchema p e"
  by (simp add: aclEntrySchema_def not_an_object_def get_prop_keep_keys del: get_prop.simps)

lemma enumerate_map_items:
  "enumerate n (map f xs) = map (\<lambda>(i, x). (i, f x)) (enumerate n xs)"
  by (induction xs arbitrary: n) simp_all

lemma parse_items_map:
  assumes "\<And>q x. el q (f x) = el q x"
  shows "parse_items el p (map f items) = parse_items el p items"
  by (simp add: parse_items_def enumerate_map_items split_beta assms)

lemma ZodArray_map_items:
  assumes "\<And>q x. el q (f x) = el q x"
  shows "ZodArray el p (map_items f v) = ZodArray el p v"
  by (cases v) (simp_all add: ZodArray_def parse_items_map [of el f, OF assms])

lemma getParsedType_map_items [simp]: "getParsedType (map_items f v) = getParsedType v"
  by (cases v) simp_all

lemma ZodOptional_ZodArray_map_items:
  assumes "\<And>q x. el q (f x) = el q x"
  shows "ZodOptional (ZodArray el) p (map_items f v) = ZodOptional (ZodArray el) p v"
  by (simp add: ZodOptional_def ZodArray_map_items [of el f, OF assms])

lemma toolsSchema_strip:
  "toolsSchema p (map_items (keep_keys [''server'', ''name'', ''access'']) v) = toolsSchema p v"
  unfolding toolsSchema_def by (rule ZodOptional_ZodArray_map_items) (rule toolSchema_keep)

lemma aclSchema_strip:
  "aclSchema p (map_items (keep_keys [''principal'', ''role'']) v) = aclSchema p v"
  unfolding aclSchema_def by (rule ZodOptional_ZodArray_map_items) (rule aclEntrySchema_keep)

lemma map_of_strip_field:
  "map_of (map strip_field kvs) k = map_option (\<lambda>v. snd (strip_field (k, v))) (map_of kvs k)"
  by (induction kvs) auto

lemma map_items_JUndefined [simp]: "map_items f JUndefined = JUndefined"
  by simp

lemma get_prop_strip_unknown:
  assumes "k \<in> set [''name'', ''model'', ''description'', ''tools'', ''skills'', ''acl'']"
  shows "get_prop (strip_unknown d) k = snd (strip_field (k, get_prop d k))"
proof (cases d)
  case (JObj kvs)
  have "map_of (map strip_field (filter (\<lambda>kv. fst kv \<in>
        set [''name'', ''model'', ''description'', ''tools'', ''skills'', ''acl'']) kvs)) k
      = map_option (\<lambda>v. snd (strip_field (k, v))) (map_of kvs k)"
    unfolding map_of_strip_field using assms by (simp only: map_of_filter_keys)
  with JObj show ?thesis
    by (cases "map_of kvs k") (simp_all del: strip_field.simps, simp)
qed simp_all

lemma getParsedType_strip_unknown [simp]: "getParsedType (strip_unknown d) = getParsedType d"
  by (cases d) simp_all

lemma agentSpecSchema_strip_unknown:
  "agentSpecSchema p (strip_unknown d) = agentSpecSchema p d"
proof -
  have plain: "get_prop (strip_unknown d) ''name'' = get_prop d ''name''"
    "get_prop (strip_unknown d) ''model'' = get_prop d ''model''"
    "get_prop (strip_unknown d) ''description'' = get_prop d ''description''"
    "get_prop (strip_unknown d) ''skills'' = get_prop d ''skills''"
    by (simp_all add: get_prop_strip_unknown del: get_prop.simps strip_unknown.simps)
  have lists: "toolsSchema q (get_prop (strip_unknown d) ''tools'') = toolsSchema q (get_prop d ''tools'')"
    "aclSchema q (get_prop (strip_unknown d) ''acl'') = aclSchema q (get_prop d ''acl'')" for q
    by (simp_all add: get_prop_strip_unknown toolsSchema_strip aclSchema_strip
        del: get_prop.simps strip_unknown.simps)
  show ?thesis
    unfolding agentSpecSchema_def plain lists
    by (simp add: not_an_object_def del: get_prop.simps strip_unknown.simps)
qed

lemma parseAgentSpec_strip_unknown:
  "parseAgentSpec (\<lambda>_. Inr (strip_unknown d)) y = parseAgentSpec (\<lambda>_. Inr d) y'"
  by (cases d) (simp_all add: parseAgentSpec_def safeParse_def agentSpecSchema_strip_unknown
      del: strip_unknown.simps, simp_all)


section \<open>Rejected documents\<close>

lemma modelSchema_returns:
  "js_to_string d \<noteq> None \<Longrightarrow> \<exists>zs r. modelSchema p d = Returns (zs, r)"
  using modelSchema_cases [of p d] by auto

lemma agentSpecSchema_returns:
  assumes "js_to_string (get_prop d ''model'') \<noteq> None"
  shows "\<exists>zs r. agentSpecSchema p d = Returns (zs, r)"
proof (cases "getParsedType d = ''object''")
  case True
  from modelSchema_returns [OF assms] obtain i2 r2 where
    "modelSchema (p @ [Key ''model'']) (get_prop d ''model'') = Returns (i2, r2)" by blast
  from agentSpecSchema_object [OF True this] show ?thesis by blast
next
  case False
  then show ?thesis by (simp add: agentSpecSchema_def)
qed

text \<open>
  A document that passes the mapping guard and whose \<^verbatim>\<open>model\<close> value converts to text
  is either accepted or rejected with a \<^verbatim>\<open>SpecParseError\<close> that carries the issues of
  the schema.
\<close>

lemma schema_failure_SpecParseError:
  assumes doc: "parseYaml y = Inr d" and guard: "d \<noteq> JNull" "d \<noteq> JUndefined" "typeof d = ''object''"
    and renders: "js_to_string (get_prop d ''model'') \<noteq> None"
    and rejected: "\<And>spec. parseAgentSpec parseYaml y \<noteq> Returns spec"
  shows "\<exists>zs. zs \<noteq> [] \<and> parseAgentSpec parseYaml y
           = Throws (Thrown_SpecParseError (SpecParseError (formatZodIssues zs)))"
proof -
  from agentSpecSchema_returns [OF renders] obtain zs r where
    a: "agentSpecSchema [] d = Returns (zs, r)" by blast
  have "\<not> is_valid r"
  proof
    assume "is_valid r"
    then obtain spec where "r = OK spec" by (auto simp: is_valid_iff)
    with a have "spec_of d spec" by (auto dest: agentSpecSchema_OK_D)
    with doc have "parseAgentSpec parseYaml y = Returns spec"
      by (auto simp: parseAgentSpec_Returns_iff)
    with rejected [of spec] show False by blast
  qed
  moreover from a have "(zs = []) = is_valid r" by (rule agentSpecSchema_sound)
  ultimately have "zs \<noteq> []" and "safeParse agentSpecSchema d = Returns (Failure zs)"
    using a by (cases r; simp add: safeParse_def)+
  with doc guard show ?thesis by (auto simp: parseAgentSpec_def)
qed

text \<open>
  An entry of \<^verbatim>\<open>tools\<close> whose \<^verbatim>\<open>access\<close> is absent or is neither \<^verbatim>\<open>read\<close> nor
  \<^verbatim>\<open>write\<close> makes \<^verbatim>\<open>parseAgentSpec\<close> reject the whole document; the rejection is a
  \<^verbatim>\<open>SpecParseError\<close> whenever the \<^verbatim>\<open>model\<close> value converts to text.
\<close>

lemma tool_entry_access_required:
  assumes doc: "parseYaml y = Inr d" and tools: "get_prop d ''tools'' = JArr entries"
    and entry: "e \<in> set entries"
    and access: "get_prop e ''access'' \<noteq> JStr ''read''" "get_prop e ''access'' \<noteq> JStr ''write''"
  shows "(\<forall>spec. parseAgentSpec parseYaml y \<noteq> Returns spec)
       \<and> (js_to_string (get_prop d ''model'') \<noteq> None
            \<longrightarrow> (\<exists>err. parseAgentSpec parseYaml y = Throws (Thrown_SpecParseError err)))"
proof -
  have rejected: "parseAgentSpec parseYaml y \<noteq> Returns spec" for spec
  proof
    assume "parseAgentSpec parseYaml y = Returns spec"
    with doc have "spec_of d spec" by (auto simp: parseAgentSpec_Returns_iff)
    with tools obtain outs where "list_all2 tool_form entries outs"
      by (auto simp: spec_of_def)
    with entry obtain t where "tool_form e t"
      by (auto simp: list_all2_conv_all_nth in_set_conv_nth)
    then have "\<exists>t. tool_form e t" ..
    with access show False unfolding tool_form_ex by simp
  qed
  from tools have obj: "d \<noteq> JNull" "d \<noteq> JUndefined" "typeof d = ''object''"
    by (cases d; simp)+
  from schema_failure_SpecParseError [OF doc obj _ rejected] rejected
  show ?thesis by blast
qed

text \<open>A document the YAML parser cannot read is reported by one issue.\<close>

lemma malformed_document_SpecParseError:
  "parseYaml y = Inl err_message \<Longrightarrow>
     parseAgentSpec parseYaml y
       = Throws (Thrown_SpecParseError (SpecParseError [''YAML syntax error: '' @ err_message]))"
  by (simp add: parseAgentSpec_def)

text \<open>
  The one way out of \<^verbatim>\<open>parseAgentSpec\<close> that is neither a result nor a
  \<^verbatim>\<open>SpecParseError\<close>: a mapping whose \<^verbatim>\<open>model\<close> value does not convert to text.
\<close>

lemma parseAgentSpec_TypeError_iff:
  "parseAgentSpec parseYaml y = Throws Thrown_TypeError
     \<longleftrightarrow> (\<exists>kvs. parseYaml y = Inr (JObj kvs)
            \<and> js_to_string (get_prop (JObj kvs) ''model'') = None)"
  (is "?L \<longleftrightarrow> ?R")
proof
  assume l: ?L
  then obtain d where d: "parseYaml y = Inr d"
    by (cases "parseYaml y") (auto simp: parseAgentSpec_def)
  with l have guard: "\<not> (d = JNull \<or> d = JUndefined \<or> typeof d \<noteq> ''object'')"
    by (auto simp: parseAgentSpec_def split: if_splits)
  with l d have "safeParse agentSpecSchema d = Throws Thrown_TypeError"
    by (auto simp: parseAgentSpec_def split: outcome.splits SafeParseReturn.splits)
  then have t: "agentSpecSchema [] d = Throws Thrown_TypeError"
    by (auto simp: safeParse_def split: outcome.splits parse_return.splits if_splits)
  then have "getParsedType d = ''object''"
    by (auto simp: agentSpecSchema_def split: if_splits)
  then obtain kvs where kvs: "d = JObj kvs" by (auto simp: getParsedType_object)
  have "js_to_string (get_prop d ''model'') = None"
  proof (rule ccontr)
    assume "js_to_string (get_prop d ''model'') \<noteq> None"
    from agentSpecSchema_returns [OF this, of "[]"] t show False by auto
  qed
  with d kvs show ?R by blast
next
  assume ?R
  then obtain kvs where d: "parseYaml y = Inr (JObj kvs)"
    and n: "js_to_string (get_prop (JObj kvs) ''model'') = None" by blast
  from n modelSchema_cases [of "[Key ''model'']" "get_prop (JObj kvs) ''model''"]
  have "modelSchema ([] @ [Key ''model'']) (get_prop (JObj kvs) ''model'') = Throws Thrown_TypeError"
    by auto
  then have "agentSpecSchema [] (JObj kvs) = Throws Thrown_TypeError"
    by (intro agentSpecSchema_object_throws) simp_all
  with d show ?L by (simp add: parseAgentSpec_def safeParse_def)
qed


text \<open>The library's own \<^verbatim>\<open>Error\<close> is never raised: a return that is not valid has issues.\<close>

lemma parseAgentSpec_throws_only:
  assumes "parseAgentSpec parseYaml y = Throws e"
  shows "e = Thrown_TypeError \<or> (\<exists>err. e = Thrown_SpecParseError err)"
proof (cases "parseYaml y")
  case (Inl m)
  with assms show ?thesis by (auto simp: parseAgentSpec_def)
next
  case (Inr d)
  show ?thesis
  proof (cases "safeParse agentSpecSchema d")
    case (Throws x)
    then have "x = Thrown_TypeError" by (rule safeParse_agentSpecSchema_throws)
    with assms Inr Throws show ?thesis
      by (auto simp: parseAgentSpec_def split: if_splits)
  next
    case (Returns res)
    with assms Inr show ?thesis
      by (cases res) (auto simp: parseAgentSpec_def split: if_splits)
  qed
qed


section \<open>One block of issues for each place\<close>






























lemma parseAgentSpec_SpecParseError_object:
  assumes "parseYaml y = Inr d" and "getParsedType d = ''object''"
    and "parseAgentSpec parseYaml y = Throws (Thrown_SpecParseError e)"
  shows "\<exists>zs r. agentSpecSchema [] d = Returns (zs, r) \<and> e = SpecParseError (formatZodIssues zs)"
proof -
  from assms(2) obtain kvs where d: "d = JObj kvs" by (auto simp: getParsedType_object)
  show ?thesis
  proof (cases "agentSpecSchema [] d")
    case (Throws x)
    then have "safeParse agentSpecSchema d = Throws x" by (simp add: safeParse_def)
    moreover from this have "x = Thrown_TypeError" by (rule safeParse_agentSpecSchema_throws)
    ultimately show ?thesis using assms(1,3) d by (simp add: parseAgentSpec_def)
  next
    case (Returns zr)
    obtain zs r where zr: "zr = (zs, r)" by (cases zr)
    from agentSpecSchema_sound [of "[]" d zs r] Returns zr
    have s: "(zs = []) = is_valid r" by simp
    show ?thesis
    proof (cases r)
      case (OK spec)
      with Returns zr assms(1,3) d show ?thesis
        by (simp add: parseAgentSpec_def safeParse_def)
    next
      case (DIRTY spec)
      with s Returns zr assms(1,3) d show ?thesis
        by (auto simp: parseAgentSpec_def safeParse_def)
    next
      case INVALID
      with s Returns zr assms(1,3) d show ?thesis
        by (auto simp: parseAgentSpec_def safeParse_def)
    qed
  qed
qed

section \<open>The places of the violations\<close>

















section \<open>The claims\<close>

text \<open>
  C1, as amended.  For every mapping with a valid name and a non-empty description
  whose \<^verbatim>\<open>model\<close> is a string outside the supported-model set, \<^verbatim>\<open>parseAgentSpec\<close>
  raises a \<^verbatim>\<open>SpecParseError\<close> whose issues begin with exactly one issue for the
  model, and that issue's text contains every member of the set.  Every further issue
  is about \<^verbatim>\<open>tools\<close>, \<^verbatim>\<open>skills\<close> or \<^verbatim>\<open>acl\<close>, and there is none (the list holds
  exactly one issue) exactly when the rest of the mapping is acceptable, that is,
  accepted once the model is replaced by a supported one.  Conversely
  \<^verbatim>\<open>parseAgentSpec\<close> returns only when the \<^verbatim>\<open>model\<close> field of the document is a
  string that is a member of the set, and that string is the model of the spec it
  returns: a document whose model is absent, is not a string or is outside the set is
  never accepted.
\<close>

theorem unknown_model_rejected:
  "(parseYaml yamlContent = Inr (JObj kvs)
      \<and> get_prop (JObj kvs) ''name'' = JStr n \<and> n \<noteq> [] \<and> regex_test name_regex n
      \<and> get_prop (JObj kvs) ''description'' = JStr de \<and> de \<noteq> []
      \<and> get_prop (JObj kvs) ''model'' = JStr m \<and> m \<notin> set SUPPORTED_MODELS
    \<longrightarrow> (\<exists>rest.
            parseAgentSpec parseYaml yamlContent
              = Throws (Thrown_SpecParseError (SpecParseError
                  ((''model: Unknown model '' @ [CHR 0x22] @ m @ [CHR 0x22]
                     @ ''. Supported: gemini-2.5-flash, gemini-2.5-pro, gemini-3-flash-preview'')
                   # rest)))
            \<and> (\<forall>i \<in> set rest. prefix ''tools'' i \<or> prefix ''skills'' i \<or> prefix ''acl'' i)
            \<and> (rest = [] \<longleftrightarrow>
                 (\<exists>spec. parseAgentSpec
                    (\<lambda>_. Inr (JObj ((''model'', JStr ''gemini-2.5-flash'') # kvs))) yamlContent
                    = Returns spec)))
         \<and> (\<forall>s \<in> set SUPPORTED_MODELS.
               sublist s (''model: Unknown model '' @ [CHR 0x22] @ m @ [CHR 0x22]
                 @ ''. Supported: gemini-2.5-flash, gemini-2.5-pro, gemini-3-flash-preview'')))
   \<and> (\<forall>parseYaml' y' spec. parseAgentSpec parseYaml' y' = Returns spec
         \<longrightarrow> (\<exists>raw s. parseYaml' y' = Inr raw \<and> get_prop raw ''model'' = JStr s
                \<and> s \<in> set SUPPORTED_MODELS \<and> model spec = s))"
proof (rule conjI, rule impI)
  assume hyps: "parseYaml yamlContent = Inr (JObj kvs)
      \<and> get_prop (JObj kvs) ''name'' = JStr n \<and> n \<noteq> [] \<and> regex_test name_regex n
      \<and> get_prop (JObj kvs) ''description'' = JStr de \<and> de \<noteq> []
      \<and> get_prop (JObj kvs) ''model'' = JStr m \<and> m \<notin> set SUPPORTED_MODELS"
  then have doc: "parseYaml yamlContent = Inr (JObj kvs)"
    and name: "get_prop (JObj kvs) ''name'' = JStr n" "n \<noteq> []" "regex_test name_regex n"
    and description: "get_prop (JObj kvs) ''description'' = JStr de" "de \<noteq> []"
    and model: "get_prop (JObj kvs) ''model'' = JStr m" "m \<notin> set SUPPORTED_MODELS"
    by blast+
  let ?d = "JObj kvs"
  let ?text = "''Unknown model '' @ [CHR 0x22] @ m @ [CHR 0x22] @ ''. Supported: ''
                 @ join '', '' SUPPORTED_MODELS"
  let ?ts = "fst (toolsSchema [Key ''tools''] (get_prop ?d ''tools''))"
  let ?ss = "fst (skillsSchema [Key ''skills''] (get_prop ?d ''skills''))"
  let ?as = "fst (aclSchema [Key ''acl''] (get_prop ?d ''acl''))"
  let ?rest = "formatZodIssues (?ts @ ?ss @ ?as)"
  have m: "modelSchema [Key ''model''] (get_prop ?d ''model'')
             = Returns ([\<lparr>path = [Key ''model''], message = ?text\<rparr>], INVALID)"
    using model modelSchema_cases [of "[Key ''model'']" "JStr m"] by auto
  have n: "fst (nameSchema [Key ''name''] (get_prop ?d ''name'')) = []"
    using name sound_OK_Nil [OF sound_fields(1)] by (simp add: nameSchema_OK)
  have de: "fst (descriptionSchema [Key ''description''] (get_prop ?d ''description'')) = []"
    using description sound_OK_Nil [OF sound_fields(2)] by (simp add: descriptionSchema_OK)
  have "agentSpecSchema [] ?d
      = Returns (\<lparr>path = [Key ''model''], message = ?text\<rparr> # ?ts @ ?ss @ ?as, INVALID)"
    using agentSpecSchema_root [OF _ m] n de by (simp del: get_prop.simps)
  then have "safeParse agentSpecSchema ?d
      = Returns (Failure (\<lparr>path = [Key ''model''], message = ?text\<rparr> # ?ts @ ?ss @ ?as))"
    by (simp add: safeParse_def)
  then have thrown: "parseAgentSpec parseYaml yamlContent
      = Throws (Thrown_SpecParseError (SpecParseError
          ((''model: Unknown model '' @ [CHR 0x22] @ m @ [CHR 0x22]
              @ ''. Supported: gemini-2.5-flash, gemini-2.5-pro, gemini-3-flash-preview'')
           # ?rest)))"
    using doc
    by (simp add: parseAgentSpec_def formatZodIssues_def formatZodIssue_def SUPPORTED_MODELS_def)
  have located: "\<forall>i \<in> set ?rest. prefix ''tools'' i \<or> prefix ''skills'' i \<or> prefix ''acl'' i"
    using located_fields(3-5) [THEN locatedD]
    by (auto simp: formatZodIssues_def intro: formatZodIssue_prefix)
  have "?rest = [] \<longleftrightarrow> ?ts = [] \<and> ?ss = [] \<and> ?as = []"
    by (simp add: formatZodIssues_def)
  also have "\<dots> \<longleftrightarrow> (\<exists>t s a. optional_list tool_form (get_prop ?d ''tools'') t
          \<and> optional_list skill_form (get_prop ?d ''skills'') s
          \<and> optional_list acl_form (get_prop ?d ''acl'') a)"
    by (rule optional_fields_valid_iff)
  also have "\<dots> \<longleftrightarrow> (\<exists>spec. spec_of (JObj ((''model'', JStr ''gemini-2.5-flash'') # kvs)) spec)"
  proof
    assume "\<exists>t s a. optional_list tool_form (get_prop ?d ''tools'') t
          \<and> optional_list skill_form (get_prop ?d ''skills'') s
          \<and> optional_list acl_form (get_prop ?d ''acl'') a"
    then obtain t s a where "optional_list tool_form (get_prop ?d ''tools'') t"
      "optional_list skill_form (get_prop ?d ''skills'') s"
      "optional_list acl_form (get_prop ?d ''acl'') a" by blast
    with name description
    have "spec_of (JObj ((''model'', JStr ''gemini-2.5-flash'') # kvs))
            \<lparr>name = n, model = ''gemini-2.5-flash'', description = de, tools = t, skills = s,
             acl = a\<rparr>"
      by (simp add: spec_of_def SUPPORTED_MODELS_def)
    then show "\<exists>spec. spec_of (JObj ((''model'', JStr ''gemini-2.5-flash'') # kvs)) spec" ..
  next
    assume "\<exists>spec. spec_of (JObj ((''model'', JStr ''gemini-2.5-flash'') # kvs)) spec"
    then show "\<exists>t s a. optional_list tool_form (get_prop ?d ''tools'') t
          \<and> optional_list skill_form (get_prop ?d ''skills'') s
          \<and> optional_list acl_form (get_prop ?d ''acl'') a"
      by (auto simp: spec_of_def)
  qed
  finally have rest: "?rest = [] \<longleftrightarrow>
      (\<exists>spec. parseAgentSpec
         (\<lambda>_. Inr (JObj ((''model'', JStr ''gemini-2.5-flash'') # kvs))) yamlContent
         = Returns spec)"
    by (simp add: parseAgentSpec_Returns_iff)
  have "sublist s (join '', '' SUPPORTED_MODELS)" if "s \<in> set SUPPORTED_MODELS" for s
    using that by (rule join_sublist)
  then have "sublist s ((''model: Unknown model '' @ [CHR 0x22] @ m @ [CHR 0x22]
      @ ''. Supported: '') @ join '', '' SUPPORTED_MODELS)" if "s \<in> set SUPPORTED_MODELS" for s
    using that sublist_append by blast
  then have listed: "\<forall>s \<in> set SUPPORTED_MODELS.
      sublist s (''model: Unknown model '' @ [CHR 0x22] @ m @ [CHR 0x22]
        @ ''. Supported: gemini-2.5-flash, gemini-2.5-pro, gemini-3-flash-preview'')"
    by (simp add: SUPPORTED_MODELS_def)
  from thrown located rest listed
  show "(\<exists>rest.
            parseAgentSpec parseYaml yamlContent
              = Throws (Thrown_SpecParseError (SpecParseError
                  ((''model: Unknown model '' @ [CHR 0x22] @ m @ [CHR 0x22]
                     @ ''. Supported: gemini-2.5-flash, gemini-2.5-pro, gemini-3-flash-preview'')
                   # rest)))
            \<and> (\<forall>i \<in> set rest. prefix ''tools'' i \<or> prefix ''skills'' i \<or> prefix ''acl'' i)
            \<and> (rest = [] \<longleftrightarrow>
                 (\<exists>spec. parseAgentSpec
                    (\<lambda>_. Inr (JObj ((''model'', JStr ''gemini-2.5-flash'') # kvs))) yamlContent
                    = Returns spec)))
         \<and> (\<forall>s \<in> set SUPPORTED_MODELS.
               sublist s (''model: Unknown model '' @ [CHR 0x22] @ m @ [CHR 0x22]
                 @ ''. Supported: gemini-2.5-flash, gemini-2.5-pro, gemini-3-flash-preview''))"
    by blast
next
  show "\<forall>parseYaml' y' spec. parseAgentSpec parseYaml' y' = Returns spec
      \<longrightarrow> (\<exists>raw s. parseYaml' y' = Inr raw \<and> get_prop raw ''model'' = JStr s
             \<and> s \<in> set SUPPORTED_MODELS \<and> model spec = s)"
    by (auto simp: parseAgentSpec_Returns_iff spec_of_def)
qed


theorem unknown_model_rejected_witness:
  "parseAgentSpec
     (\<lambda>_. Inr (JObj [(''name'', JStr ''helper''), (''model'', JStr ''gpt-5''),
                     (''description'', JStr ''test'')])) []
     = Throws (Thrown_SpecParseError (SpecParseError
         [''model: Unknown model '' @ [CHR 0x22] @ ''gpt-5'' @ [CHR 0x22]
            @ ''. Supported: gemini-2.5-flash, gemini-2.5-pro, gemini-3-flash-preview'']))
   \<and> sublist ''gemini-3-flash-preview''
         (''model: Unknown model '' @ [CHR 0x22] @ ''gpt-5'' @ [CHR 0x22]
            @ ''. Supported: gemini-2.5-flash, gemini-2.5-pro, gemini-3-flash-preview'')
   \<and> \<not> (\<exists>spec. parseAgentSpec
         (\<lambda>_. Inr (JObj [(''name'', JStr ''helper''), (''description'', JStr ''test'')])) []
         = Returns spec)
   \<and> \<not> (\<exists>spec. parseAgentSpec
         (\<lambda>_. Inr (JObj [(''name'', JStr ''helper''), (''model'', JNum ''5''),
                         (''description'', JStr ''test'')])) []
         = Returns spec)"
proof -
  let ?kvs = "[(''name'', JStr ''helper''), (''model'', JStr ''gpt-5''),
               (''description'', JStr ''test'')]"
  let ?absent = "JObj [(''name'', JStr ''helper''), (''description'', JStr ''test'')]"
  let ?number = "JObj [(''name'', JStr ''helper''), (''model'', JNum ''5''),
                       (''description'', JStr ''test'')]"
  have ref: "parseAgentSpec
      (\<lambda>_. Inr (JObj ((''model'', JStr ''gemini-2.5-flash'') # ?kvs))) []
      = Returns \<lparr>name = ''helper'', model = ''gemini-2.5-flash'', description = ''test'',
          tools = None, skills = None, acl = None\<rparr>"
    by code_simp
  have valid_name: "regex_test name_regex ''helper''"
    by (simp add: name_regex_def in_class_def)
  have unknown: "''gpt-5'' \<notin> set SUPPORTED_MODELS"
    by (simp add: SUPPORTED_MODELS_def)
  note fact = unknown_model_rejected
    [of "\<lambda>_. Inr (JObj ?kvs)" "[]" ?kvs "''helper''" "''test''" "''gpt-5''"]
  from fact valid_name unknown obtain rest where
    thrown: "parseAgentSpec (\<lambda>_. Inr (JObj ?kvs)) []
      = Throws (Thrown_SpecParseError (SpecParseError
          ((''model: Unknown model '' @ [CHR 0x22] @ ''gpt-5'' @ [CHR 0x22]
              @ ''. Supported: gemini-2.5-flash, gemini-2.5-pro, gemini-3-flash-preview'')
           # rest)))"
    and rest: "rest = [] \<longleftrightarrow>
      (\<exists>spec. parseAgentSpec
         (\<lambda>_. Inr (JObj ((''model'', JStr ''gemini-2.5-flash'') # ?kvs))) [] = Returns spec)"
    by auto
  from fact valid_name unknown have listed: "\<forall>s \<in> set SUPPORTED_MODELS.
      sublist s (''model: Unknown model '' @ [CHR 0x22] @ ''gpt-5'' @ [CHR 0x22]
        @ ''. Supported: gemini-2.5-flash, gemini-2.5-pro, gemini-3-flash-preview'')"
    by auto
  from fact have conv: "parseAgentSpec parseYaml' y' = Returns spec
      \<Longrightarrow> \<exists>raw s. parseYaml' y' = Inr raw \<and> get_prop raw ''model'' = JStr s"
    for parseYaml' :: "string \<Rightarrow> string + jsval" and y' spec
    by blast
  have absent: "\<not> (\<exists>spec. parseAgentSpec (\<lambda>_. Inr ?absent) [] = Returns spec)"
    using conv [of "\<lambda>_. Inr ?absent" "[]"] by auto
  have number: "\<not> (\<exists>spec. parseAgentSpec (\<lambda>_. Inr ?number) [] = Returns spec)"
    using conv [of "\<lambda>_. Inr ?number" "[]"] by auto
  from rest ref have "rest = []" by simp
  with thrown listed absent number show ?thesis by (simp add: SUPPORTED_MODELS_def)
qed

text \<open>
  C1 as stated fails: a mapping with a valid name, a non-empty description and the
  model \<^verbatim>\<open>gpt-5\<close> whose \<^verbatim>\<open>tools\<close> field is a string gets two issues, not one.
\<close>

theorem unknown_model_two_issues_counterexample:
  "regex_test name_regex ''helper''
   \<and> ''gpt-5'' \<notin> set SUPPORTED_MODELS
   \<and> parseAgentSpec
       (\<lambda>_. Inr (JObj [(''name'', JStr ''helper''), (''model'', JStr ''gpt-5''),
                       (''description'', JStr ''test''), (''tools'', JStr ''filesystem'')])) []
       = Throws (Thrown_SpecParseError (SpecParseError
           [''model: Unknown model '' @ [CHR 0x22] @ ''gpt-5'' @ [CHR 0x22]
              @ ''. Supported: gemini-2.5-flash, gemini-2.5-pro, gemini-3-flash-preview'',
            ''tools: Expected array, received string'']))
   \<and> length (issues (SpecParseError
           [''model: Unknown model '' @ [CHR 0x22] @ ''gpt-5'' @ [CHR 0x22]
              @ ''. Supported: gemini-2.5-flash, gemini-2.5-pro, gemini-3-flash-preview'',
            ''tools: Expected array, received string''])) = 2"
proof -
  have "regex_test name_regex ''helper''"
    by (simp add: name_regex_def in_class_def)
  moreover have "''gpt-5'' \<notin> set SUPPORTED_MODELS"
    by (simp add: SUPPORTED_MODELS_def)
  moreover have "parseAgentSpec
       (\<lambda>_. Inr (JObj [(''name'', JStr ''helper''), (''model'', JStr ''gpt-5''),
                       (''description'', JStr ''test''), (''tools'', JStr ''filesystem'')])) []
       = Throws (Thrown_SpecParseError (SpecParseError
           [''model: Unknown model '' @ [CHR 0x22] @ ''gpt-5'' @ [CHR 0x22]
              @ ''. Supported: gemini-2.5-flash, gemini-2.5-pro, gemini-3-flash-preview'',
            ''tools: Expected array, received string'']))"
    by code_simp
  ultimately show ?thesis by simp
qed

text \<open>
  C2, as amended.  For every string \<^verbatim>\<open>s\<close>, \<^verbatim>\<open>parseAgentSpec\<close> succeeds on an
  otherwise valid agent spec whose \<^verbatim>\<open>acl\<close> list contains an entry with principal
  \<^verbatim>\<open>s\<close> and role \<^verbatim>\<open>execute\<close> if and only if \<^verbatim>\<open>s\<close> is not empty: the schema asks
  for a non-empty string and for nothing else, so a principal in none of the three
  recognized forms is accepted too.
\<close>

theorem acl_principal_nonempty:
  assumes "get_prop e ''principal'' = JStr s" and "get_prop e ''role'' = JStr ''execute''"
  shows "(\<exists>spec. parseAgentSpec
            (\<lambda>_. Inr (JObj ((''acl'', JArr (before @ [e] @ after)) # kvs))) y = Returns spec)
         \<longleftrightarrow> s \<noteq> []
           \<and> (\<exists>spec. parseAgentSpec
                (\<lambda>_. Inr (JObj ((''acl'', JArr (before @ after)) # kvs))) y = Returns spec)"
proof -
  from assms have "(\<exists>a. acl_form e a) \<longleftrightarrow> s \<noteq> []"
    by (simp add: acl_form_ex del: acl_form.simps)
  then have "(\<exists>a. optional_list acl_form (JArr (before @ [e] @ after)) a)
      \<longleftrightarrow> s \<noteq> [] \<and> (\<exists>a. optional_list acl_form (JArr (before @ after)) a)"
    by (simp only: optional_list_insert_ex)
  then show ?thesis
    by (simp add: accepted_iff del: optional_list.simps) blast
qed


theorem acl_principal_nonempty_witness:
  "(\<exists>spec. parseAgentSpec
      (\<lambda>_. Inr (JObj [(''acl'', JArr [JObj [(''principal'', JStr ''group:engineering''),
                                             (''role'', JStr ''execute'')]]),
                      (''name'', JStr ''helper''), (''model'', JStr ''gemini-2.5-flash''),
                      (''description'', JStr ''test'')])) [] = Returns spec)
   \<and> \<not> (\<exists>spec. parseAgentSpec
      (\<lambda>_. Inr (JObj [(''acl'', JArr [JObj [(''principal'', JStr ''''),
                                             (''role'', JStr ''execute'')]]),
                      (''name'', JStr ''helper''), (''model'', JStr ''gemini-2.5-flash''),
                      (''description'', JStr ''test'')])) [] = Returns spec)"
proof -
  let ?kvs = "[(''name'', JStr ''helper''), (''model'', JStr ''gemini-2.5-flash''),
               (''description'', JStr ''test'')]"
  have ref: "parseAgentSpec (\<lambda>_. Inr (JObj ((''acl'', JArr ([] @ [])) # ?kvs))) []
      = Returns \<lparr>name = ''helper'', model = ''gemini-2.5-flash'', description = ''test'',
          tools = None, skills = None, acl = Some []\<rparr>"
    by code_simp
  show ?thesis
    using acl_principal_nonempty
        [of "JObj [(''principal'', JStr ''group:engineering''), (''role'', JStr ''execute'')]"
            "''group:engineering''" "[]" "[]" ?kvs "[]"]
      acl_principal_nonempty
        [of "JObj [(''principal'', JStr ''''), (''role'', JStr ''execute'')]"
            "''''" "[]" "[]" ?kvs "[]"]
      ref
    by simp
qed

text \<open>
  C2 as stated fails: the principal \<^verbatim>\<open>nobody\<close> has none of the three recognized
  forms, and the spec that grants it \<^verbatim>\<open>execute\<close> is accepted.
\<close>

theorem acl_principal_counterexample:
  "\<not> recognized_principal ''nobody''
   \<and> parseAgentSpec
       (\<lambda>_. Inr (JObj [(''name'', JStr ''helper''), (''model'', JStr ''gemini-2.5-flash''),
                       (''description'', JStr ''test''),
                       (''acl'', JArr [JObj [(''principal'', JStr ''nobody''),
                                              (''role'', JStr ''execute'')]])])) []
       = Returns \<lparr>name = ''helper'', model = ''gemini-2.5-flash'', description = ''test'',
           tools = None, skills = None,
           acl = Some [\<lparr>principal = ''nobody'', role = ''execute''\<rparr>]\<rparr>"
proof -
  have "\<not> recognized_principal ''nobody''"
    by (simp add: recognized_principal_def has_kind_def)
  moreover have "parseAgentSpec
       (\<lambda>_. Inr (JObj [(''name'', JStr ''helper''), (''model'', JStr ''gemini-2.5-flash''),
                       (''description'', JStr ''test''),
                       (''acl'', JArr [JObj [(''principal'', JStr ''nobody''),
                                              (''role'', JStr ''execute'')]])])) []
       = Returns \<lparr>name = ''helper'', model = ''gemini-2.5-flash'', description = ''test'',
           tools = None, skills = None,
           acl = Some [\<lparr>principal = ''nobody'', role = ''execute''\<rparr>]\<rparr>"
    by code_simp
  ultimately show ?thesis ..
qed

text \<open>
  C3, as amended.  The schema of a \<^verbatim>\<open>tools\<close> entry is a union of two object forms,
  neither of them strict.  An entry is accepted if and only if its \<^verbatim>\<open>access\<close> is
  \<^verbatim>\<open>read\<close> or \<^verbatim>\<open>write\<close> and its \<^verbatim>\<open>server\<close> or its \<^verbatim>\<open>name\<close> is a non-empty
  string, whatever other keys it has.  Every accepted entry is returned in exactly one
  of two forms (\<^verbatim>\<open>tool_form\<close>): the server form, with its server and access, when
  its \<^verbatim>\<open>server\<close> is a non-empty string, and otherwise the local form, with its name
  and access.  So a mapping that supplies both a \<^verbatim>\<open>server\<close> and a \<^verbatim>\<open>name\<close> key is
  not rejected: it is returned in one form and the other key is dropped.
\<close>

theorem tools_entry_forms:
  "((\<exists>spec. parseAgentSpec
        (\<lambda>_. Inr (JObj ((''tools'', JArr (before @ [e] @ after)) # kvs))) y = Returns spec)
      \<longleftrightarrow> ((nonempty_string (get_prop e ''server'') \<or> nonempty_string (get_prop e ''name''))
            \<and> (get_prop e ''access'' = JStr ''read'' \<or> get_prop e ''access'' = JStr ''write''))
          \<and> (\<exists>spec. parseAgentSpec
                (\<lambda>_. Inr (JObj ((''tools'', JArr (before @ after)) # kvs))) y = Returns spec))
   \<and> (\<forall>spec. parseAgentSpec (\<lambda>_. Inr (JObj ((''tools'', JArr entries) # kvs))) y = Returns spec
         \<longrightarrow> (\<exists>outs. tools spec = Some outs \<and> list_all2 tool_form entries outs))"
proof -
  have "(\<exists>a. optional_list tool_form (JArr (before @ [e] @ after)) a)
      \<longleftrightarrow> ((nonempty_string (get_prop e ''server'') \<or> nonempty_string (get_prop e ''name''))
            \<and> (get_prop e ''access'' = JStr ''read'' \<or> get_prop e ''access'' = JStr ''write''))
          \<and> (\<exists>a. optional_list tool_form (JArr (before @ after)) a)"
    by (simp only: optional_list_insert_ex tool_form_ex)
  then have first: "(\<exists>spec. parseAgentSpec
        (\<lambda>_. Inr (JObj ((''tools'', JArr (before @ [e] @ after)) # kvs))) y = Returns spec)
      \<longleftrightarrow> ((nonempty_string (get_prop e ''server'') \<or> nonempty_string (get_prop e ''name''))
            \<and> (get_prop e ''access'' = JStr ''read'' \<or> get_prop e ''access'' = JStr ''write''))
          \<and> (\<exists>spec. parseAgentSpec
                (\<lambda>_. Inr (JObj ((''tools'', JArr (before @ after)) # kvs))) y = Returns spec)"
    by (simp add: accepted_iff del: optional_list.simps) blast
  have second: "\<forall>spec. parseAgentSpec
        (\<lambda>_. Inr (JObj ((''tools'', JArr entries) # kvs))) y = Returns spec
         \<longrightarrow> (\<exists>outs. tools spec = Some outs \<and> list_all2 tool_form entries outs)"
    by (auto simp: parseAgentSpec_Returns_iff spec_of_def)
  from first second show ?thesis ..
qed

theorem tools_entry_forms_witness:
  "(\<exists>spec. parseAgentSpec
      (\<lambda>_. Inr (JObj [(''tools'', JArr [JObj [(''name'', JStr ''tools/custom-tool''),
                                               (''access'', JStr ''write'')]]),
                      (''name'', JStr ''helper''), (''model'', JStr ''gemini-2.5-flash''),
                      (''description'', JStr ''test'')])) [] = Returns spec)
   \<and> list_all2 tool_form
        [JObj [(''name'', JStr ''tools/custom-tool''), (''access'', JStr ''write'')]]
        [LocalTool ''tools/custom-tool'' ''write'']"
proof -
  let ?kvs = "[(''name'', JStr ''helper''), (''model'', JStr ''gemini-2.5-flash''),
               (''description'', JStr ''test'')]"
  let ?e = "JObj [(''name'', JStr ''tools/custom-tool''), (''access'', JStr ''write'')]"
  have ref: "parseAgentSpec (\<lambda>_. Inr (JObj ((''tools'', JArr ([] @ [])) # ?kvs))) []
      = Returns \<lparr>name = ''helper'', model = ''gemini-2.5-flash'', description = ''test'',
          tools = Some [], skills = None, acl = None\<rparr>"
    by code_simp
  have run: "parseAgentSpec (\<lambda>_. Inr (JObj ((''tools'', JArr [?e]) # ?kvs))) []
      = Returns \<lparr>name = ''helper'', model = ''gemini-2.5-flash'', description = ''test'',
          tools = Some [LocalTool ''tools/custom-tool'' ''write''], skills = None, acl = None\<rparr>"
    by code_simp
  show ?thesis
    using tools_entry_forms [of "[]" ?e "[]" ?kvs "[]" "[?e]"] ref run
    by simp
qed

text \<open>
  C3 as stated fails: an entry with both a \<^verbatim>\<open>server\<close> and a \<^verbatim>\<open>name\<close> key is
  accepted, as a server tool.
\<close>

theorem tools_entry_both_keys_counterexample:
  "parseAgentSpec
     (\<lambda>_. Inr (JObj [(''name'', JStr ''helper''), (''model'', JStr ''gemini-2.5-flash''),
                     (''description'', JStr ''test''),
                     (''tools'', JArr [JObj [(''server'', JStr ''mcp://example''),
                                              (''name'', JStr ''tools/custom-tool''),
                                              (''access'', JStr ''read'')]])])) []
     = Returns \<lparr>name = ''helper'', model = ''gemini-2.5-flash'', description = ''test'',
         tools = Some [McpTool ''mcp://example'' ''read''], skills = None, acl = None\<rparr>"
  by code_simp

text \<open>
  C4.  An entry of \<^verbatim>\<open>tools\<close> whose \<^verbatim>\<open>access\<close> is absent, or is neither \<^verbatim>\<open>read\<close>
  nor \<^verbatim>\<open>write\<close>, always makes \<^verbatim>\<open>parseAgentSpec\<close> reject the whole document
  (\<^verbatim>\<open>tool_entry_access_required\<close> above).  The rejection is the \<^verbatim>\<open>SpecParseError\<close>
  that the claim and the function's documentation promise whenever the \<^verbatim>\<open>model\<close>
  value converts to text, but not always: for a \<^verbatim>\<open>model\<close> that is a mapping with a
  key \<^verbatim>\<open>toString\<close> the error map of the model field raises a TypeError, which
  escapes.  In the document below the entry has no \<^verbatim>\<open>access\<close> at all.
\<close>

theorem tools_entry_without_access_TypeError:
  "parseAgentSpec
     (\<lambda>_. Inr (JObj [(''name'', JStr ''helper''),
                     (''model'', JObj [(''toString'', JNum ''1'')]),
                     (''description'', JStr ''test''),
                     (''tools'', JArr [JObj [(''server'', JStr ''mcp://example'')]])])) []
     = Throws Thrown_TypeError"
  by code_simp




text \<open>
  C6.  A malformed document is reported by a \<^verbatim>\<open>SpecParseError\<close> with the single
  issue \<^verbatim>\<open>YAML syntax error: ...\<close> (\<^verbatim>\<open>malformed_document_SpecParseError\<close> above), and
  a schema failure by a \<^verbatim>\<open>SpecParseError\<close> whose issues are the schema's, each with
  its path (\<^verbatim>\<open>schema_failure_SpecParseError\<close>), as long as the \<^verbatim>\<open>model\<close> value
  converts to text.  A \<^verbatim>\<open>model\<close> of the wrong type that does not convert, a mapping
  with a key \<^verbatim>\<open>toString\<close>, is a schema failure reported by a TypeError instead, against
  the claim and the function's documentation.
\<close>

theorem schema_failure_TypeError:
  "parseAgentSpec
     (\<lambda>_. Inr (JObj [(''name'', JStr ''helper''),
                     (''model'', JObj [(''toString'', JStr ''gemini-2.5-flash'')]),
                     (''description'', JStr ''test'')])) []
     = Throws Thrown_TypeError"
  by code_simp

text \<open>
  C7.  \<^verbatim>\<open>parseAgentSpec\<close> accepts the \<^verbatim>\<open>name\<close> field if and only if it is a
  non-empty string of lowercase letters, digits and hyphens whose first character is a
  lowercase letter or a digit: a mapping with the value \<^verbatim>\<open>v\<close> under \<^verbatim>\<open>name\<close> is
  accepted exactly when \<^verbatim>\<open>v\<close> is such a string and the rest of the mapping is
  acceptable, that is, accepted under the name \<^verbatim>\<open>a\<close>.
\<close>

theorem name_accepted_iff:
  "(\<exists>spec. parseAgentSpec (\<lambda>_. Inr (JObj ((''name'', v) # kvs))) y = Returns spec)
   \<longleftrightarrow>
   (\<exists>s. v = JStr s \<and> s \<noteq> [] \<and> (lowercase_letter (hd s) \<or> digit (hd s))
        \<and> (\<forall>c \<in> set s. lowercase_letter c \<or> digit c \<or> c = CHR ''-''))
   \<and> (\<exists>spec. parseAgentSpec (\<lambda>_. Inr (JObj ((''name'', JStr ''a'') # kvs))) y = Returns spec)"
  (is "?L \<longleftrightarrow> ?N \<and> ?R")
proof
  assume ?L
  then obtain spec where sp: "spec_of (JObj ((''name'', v) # kvs)) spec"
    by (auto simp: parseAgentSpec_Returns_iff)
  then have v: "v = JStr (name spec)" "name spec \<noteq> []" "regex_test name_regex (name spec)"
    by (simp_all add: spec_of_def)
  then have ?N by (simp add: name_regex_test)
  moreover have "regex_test name_regex ''a''" by (simp add: name_regex_def in_class_def)
  with sp have "spec_of (JObj ((''name'', JStr ''a'') # kvs)) (spec\<lparr>name := ''a''\<rparr>)"
    by (intro spec_of_name_swap) simp_all
  then have ?R by (auto simp: parseAgentSpec_Returns_iff)
  ultimately show "?N \<and> ?R" ..
next
  assume "?N \<and> ?R"
  then obtain s spec where s: "v = JStr s" "s \<noteq> []" "regex_test name_regex s"
    and sp: "spec_of (JObj ((''name'', JStr ''a'') # kvs)) spec"
    by (auto simp: parseAgentSpec_Returns_iff name_regex_test)
  from sp s(2,3) have "spec_of (JObj ((''name'', JStr s) # kvs)) (spec\<lparr>name := s\<rparr>)"
    by (rule spec_of_name_swap)
  with s(1) show ?L by (auto simp: parseAgentSpec_Returns_iff)
qed

theorem name_accepted_iff_witness:
  "(\<exists>spec. parseAgentSpec (\<lambda>_. Inr (JObj [(''name'', JStr ''file-reader''),
        (''model'', JStr ''gemini-2.5-pro''), (''description'', JStr ''You help users.'')])) []
      = Returns spec)
   \<and> \<not> (\<exists>spec. parseAgentSpec (\<lambda>_. Inr (JObj [(''name'', JStr ''My Agent!''),
        (''model'', JStr ''gemini-2.5-pro''), (''description'', JStr ''You help users.'')])) []
      = Returns spec)"
proof -
  let ?kvs = "[(''model'', JStr ''gemini-2.5-pro''), (''description'', JStr ''You help users.'')]"
  have ref: "parseAgentSpec (\<lambda>_. Inr (JObj ((''name'', JStr ''a'') # ?kvs))) []
      = Returns \<lparr>name = ''a'', model = ''gemini-2.5-pro'', description = ''You help users.'',
          tools = None, skills = None, acl = None\<rparr>"
    by code_simp
  have good: "lowercase_letter (hd ''file-reader'')"
    "\<forall>c \<in> set ''file-reader''. lowercase_letter c \<or> digit c \<or> c = CHR ''-''"
    by (simp_all add: lowercase_letter_def)
  have bad: "\<not> (\<forall>c \<in> set ''My Agent!''. lowercase_letter c \<or> digit c \<or> c = CHR ''-'')"
    by (simp add: lowercase_letter_def digit_def)
  show ?thesis
    using name_accepted_iff [of "JStr ''file-reader''" ?kvs "[]"]
      name_accepted_iff [of "JStr ''My Agent!''" ?kvs "[]"] ref good bad
    by simp
qed

text \<open>
  C8.  Unrecognized keys are dropped silently.  Take any mapping and look only at its
  recognized part (the six keys of the schema and, inside the entries of \<^verbatim>\<open>tools\<close>
  and \<^verbatim>\<open>acl\<close>, the keys of the entry schemas).  When the recognized fields are
  valid, so that they describe an agent spec, \<^verbatim>\<open>parseAgentSpec\<close> succeeds on the
  whole mapping, whatever other keys it or its entries carry, and returns exactly that
  agent spec: the value holds the recognized fields and none of the other keys.  In
  every case the outcome is the one of the mapping without its unrecognized keys, so
  no issue is ever reported for one of them.
\<close>

theorem unknown_keys_dropped:
  assumes "parseYaml y = Inr (JObj kvs)"
  shows "(\<forall>spec. spec_of (strip_unknown (JObj kvs)) spec
            \<longrightarrow> parseAgentSpec parseYaml y = Returns spec)
       \<and> parseAgentSpec parseYaml y
           = parseAgentSpec (\<lambda>_. Inr (strip_unknown (JObj kvs))) y"
proof -
  have same: "parseAgentSpec parseYaml y
      = parseAgentSpec (\<lambda>_. Inr (strip_unknown (JObj kvs))) y"
  proof -
    have "parseAgentSpec parseYaml y = parseAgentSpec (\<lambda>_. Inr (JObj kvs)) y"
      using assms by (simp add: parseAgentSpec_def)
    also have "\<dots> = parseAgentSpec (\<lambda>_. Inr (strip_unknown (JObj kvs))) y"
      by (rule parseAgentSpec_strip_unknown [symmetric])
    finally show ?thesis .
  qed
  have "parseAgentSpec parseYaml y = Returns spec"
    if "spec_of (strip_unknown (JObj kvs)) spec" for spec
  proof -
    from that have "parseAgentSpec (\<lambda>_. Inr (strip_unknown (JObj kvs))) y = Returns spec"
      unfolding parseAgentSpec_Returns_iff by blast
    with same show ?thesis by simp
  qed
  with same show ?thesis by blast
qed

theorem unknown_keys_dropped_witness:
  "parseAgentSpec
     (\<lambda>_. Inr (JObj [(''name'', JStr ''helper''), (''model'', JStr ''gemini-2.5-flash''),
                     (''description'', JStr ''test''), (''temperature'', JNum ''0.2''),
                     (''tols'', JArr [JStr ''search'']),
                     (''tools'', JArr [JObj [(''server'', JStr ''mcp://example''),
                                              (''access'', JStr ''read''),
                                              (''timeout'', JNum ''30'')]]),
                     (''acl'', JArr [JObj [(''principal'', JStr ''user:connor''),
                                            (''role'', JStr ''read''),
                                            (''note'', JStr ''temporary'')]])])) []
     = Returns \<lparr>name = ''helper'', model = ''gemini-2.5-flash'', description = ''test'',
         tools = Some [McpTool ''mcp://example'' ''read''], skills = None,
         acl = Some [\<lparr>principal = ''user:connor'', role = ''read''\<rparr>]\<rparr>
   \<and> strip_unknown
        (JObj [(''name'', JStr ''helper''), (''model'', JStr ''gemini-2.5-flash''),
               (''description'', JStr ''test''), (''temperature'', JNum ''0.2''),
               (''tols'', JArr [JStr ''search'']),
               (''tools'', JArr [JObj [(''server'', JStr ''mcp://example''),
                                        (''access'', JStr ''read''),
                                        (''timeout'', JNum ''30'')]]),
               (''acl'', JArr [JObj [(''principal'', JStr ''user:connor''),
                                      (''role'', JStr ''read''),
                                      (''note'', JStr ''temporary'')]])])
     = JObj [(''name'', JStr ''helper''), (''model'', JStr ''gemini-2.5-flash''),
             (''description'', JStr ''test''),
             (''tools'', JArr [JObj [(''server'', JStr ''mcp://example''),
                                      (''access'', JStr ''read'')]]),
             (''acl'', JArr [JObj [(''principal'', JStr ''user:connor''),
                                    (''role'', JStr ''read'')]])]"
proof -
  let ?kvs = "[(''name'', JStr ''helper''), (''model'', JStr ''gemini-2.5-flash''),
               (''description'', JStr ''test''), (''temperature'', JNum ''0.2''),
               (''tols'', JArr [JStr ''search'']),
               (''tools'', JArr [JObj [(''server'', JStr ''mcp://example''),
                                        (''access'', JStr ''read''),
                                        (''timeout'', JNum ''30'')]]),
               (''acl'', JArr [JObj [(''principal'', JStr ''user:connor''),
                                      (''role'', JStr ''read''),
                                      (''note'', JStr ''temporary'')]])]"
  let ?spec = "\<lparr>name = ''helper'', model = ''gemini-2.5-flash'', description = ''test'',
         tools = Some [McpTool ''mcp://example'' ''read''], skills = None,
         acl = Some [\<lparr>principal = ''user:connor'', role = ''read''\<rparr>]\<rparr>"
  have recognized: "strip_unknown (JObj ?kvs)
     = JObj [(''name'', JStr ''helper''), (''model'', JStr ''gemini-2.5-flash''),
             (''description'', JStr ''test''),
             (''tools'', JArr [JObj [(''server'', JStr ''mcp://example''),
                                      (''access'', JStr ''read'')]]),
             (''acl'', JArr [JObj [(''principal'', JStr ''user:connor''),
                                    (''role'', JStr ''read'')]])]"
    by simp
  have valid_name: "regex_test name_regex ''helper''"
    by (simp add: name_regex_def in_class_def)
  have valid: "spec_of (strip_unknown (JObj ?kvs)) ?spec"
    unfolding recognized using valid_name by (simp add: spec_of_def SUPPORTED_MODELS_def)
  from unknown_keys_dropped [of "\<lambda>_. Inr (JObj ?kvs)" "[]" ?kvs, OF refl] valid
  have "parseAgentSpec (\<lambda>_. Inr (JObj ?kvs)) [] = Returns ?spec" by blast
  with recognized show ?thesis by blast
qed



text \<open>
  C10, as amended.  When the top level of the input parses to a YAML sequence, the
  mapping guard lets it pass (it stops null, undefined and scalars only) and the
  schema rejects it: \<^verbatim>\<open>parseAgentSpec\<close> raises a \<^verbatim>\<open>SpecParseError\<close> with the single
  schema issue \<^verbatim>\<open>(root): Expected object, received array\<close>, which is not the guard's
  issue.  The fields of the schema are not looked at, so no issue reports a missing
  name, model or description.
\<close>

theorem sequence_document_issue:
  assumes "parseYaml yamlContent = Inr (JArr items)"
  shows "parseAgentSpec parseYaml yamlContent
           = Throws (Thrown_SpecParseError
               (SpecParseError [''(root): Expected object, received array'']))"
  using assms
  by (simp add: parseAgentSpec_def safeParse_def agentSpecSchema_def not_an_object_def
      invalid_type_message_def formatZodIssues_def formatZodIssue_def)

theorem sequence_document_issue_witness:
  "parseAgentSpec (\<lambda>_. Inr (JArr [JStr ''helper'', JStr ''gemini-2.5-flash''])) ''- helper''
     = Throws (Thrown_SpecParseError
         (SpecParseError [''(root): Expected object, received array'']))"
  using sequence_document_issue
    [of "\<lambda>_. Inr (JArr [JStr ''helper'', JStr ''gemini-2.5-flash''])" "''- helper''"]
  by simp

text \<open>
  C10 as stated fails: on the empty sequence the error carries one issue, and it
  names neither \<^verbatim>\<open>name\<close> nor \<^verbatim>\<open>model\<close> nor \<^verbatim>\<open>description\<close>.
\<close>

theorem sequence_document_counterexample:
  "parseAgentSpec (\<lambda>_. Inr (JArr [])) ''[]''
     = Throws (Thrown_SpecParseError
         (SpecParseError [''(root): Expected object, received array'']))
   \<and> \<not> list_ex (\<lambda>i. prefix ''name'' i \<or> prefix ''model'' i \<or> prefix ''description'' i)
         [''(root): Expected object, received array'']"
  by (simp add: parseAgentSpec_def safeParse_def agentSpecSchema_def not_an_object_def
      invalid_type_message_def formatZodIssues_def formatZodIssue_def)

end
